theory Spec2Isabelle
  imports Main "HOL-Library.Word" "HOL-Library.Signed_Division"
begin

unbundle bit_operations_syntax

section \<open>Data model\<close>

text \<open>
  The model follows \<^verbatim>\<open>be/src/storage/update_manager.cpp\<close>. Every block of the source
  that runs under one \<^verbatim>\<open>std::lock_guard\<close> is one function on the manager's state, so a
  property of such a block holds for every state another thread may have left behind;
  the whole C++ member function is the composition of its blocks.
\<close>

subsection \<open>Keys, statuses and cached values\<close>

text \<open>
  \<^verbatim>\<open>TabletSegmentId\<close>: \<^verbatim>\<open>int64_t tablet_id\<close> and \<^verbatim>\<open>uint32_t segment_id\<close>. No arithmetic is
  done on either, so they are an \<open>int\<close> and a \<open>nat\<close>.
\<close>

datatype tablet_segment_id = TabletSegmentId (tablet_id: int) (segment_id: nat)

text \<open>
  The order of \<^verbatim>\<open>std::map<TabletSegmentId, ...>\<close>: by tablet id, then by segment id.
\<close>

definition tsid_less :: "tablet_segment_id \<Rightarrow> tablet_segment_id \<Rightarrow> bool" where
  "tsid_less a b \<longleftrightarrow>
     tablet_id a < tablet_id b \<or> (tablet_id a = tablet_id b \<and> segment_id a < segment_id b)"

text \<open>\<^verbatim>\<open>Status\<close>: a code and a message. Only the codes this file tests or builds are named.\<close>

datatype status_code =
  OK | InternalError | MemLimitExceeded | TimeOut | Uninitialized | IOError | NotFound | Corruption

datatype status = Status (st_code: status_code) (st_message: string)

definition Status_OK :: status where
  "Status_OK = Status OK []"

definition ok :: "status \<Rightarrow> bool" where
  "ok st \<longleftrightarrow> st_code st = OK"

definition is_mem_limit_exceeded :: "status \<Rightarrow> bool" where
  "is_mem_limit_exceeded st \<longleftrightarrow> st_code st = MemLimitExceeded"

definition is_time_out :: "status \<Rightarrow> bool" where
  "is_time_out st \<longleftrightarrow> st_code st = TimeOut"

text \<open>
  \<^verbatim>\<open>DelVector\<close>: the calls this file makes on it are \<^verbatim>\<open>version()\<close>, \<^verbatim>\<open>cardinality()\<close>
  (logging only) and \<^verbatim>\<open>memory_usage()\<close>. The bitmap is the list of deleted row ordinals.
\<close>

record del_vector =
  dv_version :: int
  dv_deleted :: "nat list"
  dv_memory_usage :: nat

text \<open>
  \<^verbatim>\<open>DeltaColumnGroup\<close>: the version at which the delta became effective, the column
  files it owns and its \<^verbatim>\<open>memory_usage()\<close>.
\<close>

record delta_column_group =
  dcg_version :: int
  dcg_column_files :: "string list"
  dcg_memory_usage :: nat

type_synonym delta_column_group_list = "delta_column_group list"

text \<open>\<^verbatim>\<open>INT64_MAX\<close>, the unbounded requested version.\<close>

definition INT64_MAX :: int where
  "INT64_MAX = 2 ^ 63 - 1"

subsection \<open>Decimal rendering for \<^verbatim>\<open>strings::Substitute\<close>\<close>

text \<open>The decimal digits of a number, least significant first; the rendering reverses them.\<close>

fun decimal_digits :: "nat \<Rightarrow> nat list" where
  "decimal_digits n = (if n < 10 then [n] else n mod 10 # decimal_digits (n div 10))"

definition substitute_int :: "int \<Rightarrow> string" where
  "substitute_int i =
     (let digits = map (\<lambda>d. ''0123456789'' ! d) (rev (decimal_digits (nat \<bar>i\<bar>)))
      in if i < 0 then CHR ''-'' # digits else digits)"

subsection \<open>The persistent store, the filesystem and the trace of calls made to them\<close>

text \<open>
  \<^verbatim>\<open>KVStore* meta\<close> is an external collaborator, reached through \<^verbatim>\<open>TabletMetaManager\<close>.
  It is a parameter of the model: for each request, the status it answers and what it
  writes through the output pointers. \<open>get_del_vector\<close> answers the status, the
  vector it filled in and the latest version it reports.
\<close>

record kv_store =
  get_del_vector :: "tablet_segment_id \<Rightarrow> int \<Rightarrow> status \<times> del_vector \<times> int"
  get_delta_column_group_in_meta :: "tablet_segment_id \<Rightarrow> int \<Rightarrow> status \<times> delta_column_group_list"
  delete_delta_column_group :: "tablet_segment_id \<Rightarrow> int \<Rightarrow> status"
  write_batch :: "(tablet_segment_id \<times> int) list \<Rightarrow> status"

text \<open>
  \<^verbatim>\<open>FileSystem\<close>: the status of \<^verbatim>\<open>CreateSharedFromString\<close> for a path and of
  \<^verbatim>\<open>delete_file\<close> for a file name.
\<close>

record file_system =
  create_shared_from_string :: "string \<Rightarrow> status"
  delete_file :: "string \<Rightarrow> status"

text \<open>
  Calls that leave the manager are effects; the state records them in order, so that
  "no store access" is a statement about the state.
\<close>

datatype external_call =
  GetDelVector tablet_segment_id int
  | GetDeltaColumnGroup tablet_segment_id int
  | DeleteDeltaColumnGroup tablet_segment_id int
  | WriteBatch "(tablet_segment_id \<times> int) list"
  | DeleteFile string

subsection \<open>Memory trackers\<close>

text \<open>
  Modelled from the spec: \<^verbatim>\<open>MemTracker\<close> (\<^verbatim>\<open>runtime/mem_tracker.h\<close> is not among the
  sources). \<open>consume\<close> increases the counter, \<open>release\<close> decreases it and clamps
  at zero rather than underflowing. The counter is a \<open>nat\<close>, whose subtraction is
  that clamp. The parent tracker is owned by the caller of the constructor and is not
  part of the manager's state.
\<close>

definition consume :: "nat \<Rightarrow> nat \<Rightarrow> nat" where
  "consume bytes consumption = consumption + bytes"

definition release :: "nat \<Rightarrow> nat \<Rightarrow> nat" where
  "release bytes consumption = consumption - bytes"

subsection \<open>The generic reference-counted cache\<close>

text \<open>
  Modelled from the spec: \<^verbatim>\<open>DynamicCache\<close> (\<^verbatim>\<open>util/dynamic_cache.h\<close> is not among the
  sources), the type of \<^verbatim>\<open>_index_cache\<close>, \<^verbatim>\<open>_update_state_cache\<close> and
  \<^verbatim>\<open>_update_column_state_cache\<close>. An entry wraps a value, a reference count, an
  expiration time and an object size. The entry handle the C++ passes around is the key.
  The cache's size is the total of its entries' object sizes; the memory it tracks is
  that size.
\<close>

record 'v cache_entry =
  ce_value :: 'v
  ce_ref :: nat
  ce_expire_ms :: int
  ce_size :: nat

record ('k, 'v) dynamic_cache =
  dc_entries :: "('k \<times> 'v cache_entry) list"
  dc_capacity :: nat
  dc_ttl_ms :: int

definition dc_size :: "('k, 'v) dynamic_cache \<Rightarrow> nat" where
  "dc_size c = sum_list (map (\<lambda>e. ce_size (snd e)) (dc_entries c))"

definition dc_find :: "'k \<Rightarrow> ('k, 'v) dynamic_cache \<Rightarrow> 'v cache_entry option" where
  "dc_find key c = map_of (dc_entries c) key"

definition dc_modify ::
  "'k \<Rightarrow> ('v cache_entry \<Rightarrow> 'v cache_entry) \<Rightarrow> ('k, 'v) dynamic_cache \<Rightarrow> ('k, 'v) dynamic_cache" where
  "dc_modify key f c =
     c\<lparr>dc_entries := map (\<lambda>e. if fst e = key then (fst e, f (snd e)) else e) (dc_entries c)\<rparr>"

text \<open>
  \<open>get_or_create\<close>: the existing entry with its reference count incremented, or a
  new empty entry with reference count 1 for the caller to populate. The new entry's
  object size and expiration stay 0 until the caller sets them.
\<close>

definition dc_get_or_create :: "'k \<Rightarrow> 'v \<Rightarrow> ('k, 'v) dynamic_cache \<Rightarrow> ('k, 'v) dynamic_cache" where
  "dc_get_or_create key empty_value c =
     (case dc_find key c of
        Some e \<Rightarrow> dc_modify key (\<lambda>e. e\<lparr>ce_ref := ce_ref e + 1\<rparr>) c
      | None \<Rightarrow>
          c\<lparr>dc_entries := dc_entries c @
              [(key, \<lparr>ce_value = empty_value, ce_ref = 1, ce_expire_ms = 0, ce_size = 0\<rparr>)]\<rparr>)"

text \<open>
  \<open>get\<close>: as the source uses it, a null pointer when the key is absent, otherwise the
  entry, which the caller releases afterwards. The result says whether an entry was found.
\<close>

definition dc_get :: "'k \<Rightarrow> ('k, 'v) dynamic_cache \<Rightarrow> bool \<times> ('k, 'v) dynamic_cache" where
  "dc_get key c =
     (case dc_find key c of
        Some e \<Rightarrow> (True, dc_modify key (\<lambda>e. e\<lparr>ce_ref := ce_ref e + 1\<rparr>) c)
      | None \<Rightarrow> (False, c))"

text \<open>\<open>update_object_size\<close> and the entry's \<open>update_expire_time\<close> and value.\<close>

definition dc_update_object_size :: "'k \<Rightarrow> nat \<Rightarrow> ('k, 'v) dynamic_cache \<Rightarrow> ('k, 'v) dynamic_cache" where
  "dc_update_object_size key bytes c = dc_modify key (\<lambda>e. e\<lparr>ce_size := bytes\<rparr>) c"

definition dc_update_expire_time :: "'k \<Rightarrow> int \<Rightarrow> ('k, 'v) dynamic_cache \<Rightarrow> ('k, 'v) dynamic_cache" where
  "dc_update_expire_time key expire_ms c = dc_modify key (\<lambda>e. e\<lparr>ce_expire_ms := expire_ms\<rparr>) c"

definition dc_set_value :: "'k \<Rightarrow> 'v \<Rightarrow> ('k, 'v) dynamic_cache \<Rightarrow> ('k, 'v) dynamic_cache" where
  "dc_set_value key v c = dc_modify key (\<lambda>e. e\<lparr>ce_value := v\<rparr>) c"

text \<open>
  \<open>release\<close>: decrements the reference count; at zero the entry becomes
  eviction-eligible and its expiration is set to now plus the configured TTL.
\<close>

definition dc_release :: "'k \<Rightarrow> int \<Rightarrow> ('k, 'v) dynamic_cache \<Rightarrow> ('k, 'v) dynamic_cache" where
  "dc_release key now_ms c =
     dc_modify key
       (\<lambda>e. if ce_ref e - 1 = 0
            then e\<lparr>ce_ref := 0, ce_expire_ms := now_ms + dc_ttl_ms c\<rparr>
            else e\<lparr>ce_ref := ce_ref e - 1\<rparr>) c"

text \<open>\<open>remove\<close>: unconditionally unlinks the entry, whatever its reference count.\<close>

definition dc_remove :: "'k \<Rightarrow> ('k, 'v) dynamic_cache \<Rightarrow> ('k, 'v) dynamic_cache" where
  "dc_remove key c = c\<lparr>dc_entries := filter (\<lambda>e. fst e \<noteq> key) (dc_entries c)\<rparr>"

text \<open>
  \<open>try_evict\<close>: removes entries, in descending order of object size, until the total
  size is at most the target, skipping every entry that is still referenced.
\<close>

fun dc_evict_loop :: "'k list \<Rightarrow> nat \<Rightarrow> ('k, 'v) dynamic_cache \<Rightarrow> ('k, 'v) dynamic_cache" where
  "dc_evict_loop [] target c = c"
| "dc_evict_loop (key # keys) target c =
     (if dc_size c \<le> target then c
      else dc_evict_loop keys target
             (case dc_find key c of
                Some e \<Rightarrow> if ce_ref e = 0 then dc_remove key c else c
              | None \<Rightarrow> c))"

definition dc_try_evict :: "nat \<Rightarrow> ('k, 'v) dynamic_cache \<Rightarrow> ('k, 'v) dynamic_cache" where
  "dc_try_evict target c =
     dc_evict_loop (map fst (rev (sort_key (\<lambda>e. ce_size (snd e)) (dc_entries c)))) target c"

subsection \<open>The manager's state\<close>

text \<open>
  The members of \<^verbatim>\<open>UpdateManager\<close> that the functions below read or write. The
  delete-vector map is only ever looked up, assigned and erased by key, so it is a partial
  function; the delta-column-group map is walked in key order, so it is an ordered
  association list. The value of a rowset's update state is opaque here but for its
  \<^verbatim>\<open>memory_usage()\<close>; a primary index is opaque altogether. The thread pools, the
  executors and the metrics are not part of the state.
\<close>

record rowset_update_state =
  rus_memory_usage :: nat

record update_manager =
  del_vec_cache :: "tablet_segment_id \<rightharpoonup> del_vector"
  del_vec_cache_mem_tracker :: nat
  delta_column_group_cache :: "(tablet_segment_id \<times> delta_column_group_list) list"
  delta_column_group_cache_mem_tracker :: nat
  index_cache :: "(int, unit) dynamic_cache"
  update_state_cache :: "(string, rowset_update_state) dynamic_cache"
  update_column_state_cache :: "(string, rowset_update_state) dynamic_cache"
  keep_pindex_bf :: bool
  cache_expire_ms :: int
  external_calls :: "external_call list"

section \<open>Delete-vector cache\<close>

text \<open>\<^verbatim>\<open>get_del_vec\<close>, first block: the lookup under \<^verbatim>\<open>_del_vec_cache_lock\<close>.\<close>

definition get_del_vec_lookup :: "tablet_segment_id \<Rightarrow> int \<Rightarrow> update_manager \<Rightarrow> del_vector option" where
  "get_del_vec_lookup tsid version um =
     (case del_vec_cache um tsid of
        None \<Rightarrow> None
      | Some cached \<Rightarrow> if version \<ge> dv_version cached then Some cached else None)"

text \<open>
  \<^verbatim>\<open>get_del_vec\<close>, last block: the back-fill under the lock, entered when the loaded
  vector's version equals \<open>latest_version\<close>.
\<close>

definition get_del_vec_fill :: "tablet_segment_id \<Rightarrow> del_vector \<Rightarrow> int \<Rightarrow> update_manager \<Rightarrow> update_manager" where
  "get_del_vec_fill tsid delvec latest_version um =
     (case del_vec_cache um tsid of
        None \<Rightarrow>
          um\<lparr>del_vec_cache := (del_vec_cache um)(tsid \<mapsto> delvec),
             del_vec_cache_mem_tracker :=
               consume (dv_memory_usage delvec) (del_vec_cache_mem_tracker um)\<rparr>
      | Some cached \<Rightarrow>
          if latest_version > dv_version cached then
            um\<lparr>del_vec_cache := (del_vec_cache um)(tsid \<mapsto> delvec),
               del_vec_cache_mem_tracker :=
                 consume (dv_memory_usage delvec)
                   (release (dv_memory_usage cached) (del_vec_cache_mem_tracker um))\<rparr>
          else um)"

text \<open>
  \<^verbatim>\<open>get_del_vec_in_meta\<close>: the call to the store, outside the lock. It returns the
  store's answer and records the call.
\<close>

definition get_del_vec_in_meta ::
  "kv_store \<Rightarrow> tablet_segment_id \<Rightarrow> int \<Rightarrow> update_manager \<Rightarrow> (status \<times> del_vector \<times> int) \<times> update_manager" where
  "get_del_vec_in_meta meta tsid version um =
     (get_del_vector meta tsid version,
      um\<lparr>external_calls := external_calls um @ [GetDelVector tsid version]\<rparr>)"

text \<open>
  \<^verbatim>\<open>get_del_vec\<close>. The result is the status, the vector left in \<^verbatim>\<open>*pdelvec\<close> and the new
  state. On a failed load \<^verbatim>\<open>*pdelvec\<close> holds the fresh vector as the store left it.
\<close>

definition get_del_vec ::
  "kv_store \<Rightarrow> tablet_segment_id \<Rightarrow> int \<Rightarrow> update_manager \<Rightarrow> status \<times> del_vector \<times> update_manager" where
  "get_del_vec meta tsid version um =
     (case get_del_vec_lookup tsid version um of
        Some cached \<Rightarrow> (Status_OK, cached, um)
      | None \<Rightarrow>
          (case get_del_vec_in_meta meta tsid version um of
             ((st, delvec, latest_version), um1) \<Rightarrow>
               if \<not> ok st then (st, delvec, um1)
               else if dv_version delvec = latest_version
                 then (Status_OK, delvec, get_del_vec_fill tsid delvec latest_version um1)
                 else (Status_OK, delvec, um1)))"

text \<open>\<^verbatim>\<open>get_latest_del_vec\<close>: one block under the lock, the store call included.\<close>

definition get_latest_del_vec ::
  "kv_store \<Rightarrow> tablet_segment_id \<Rightarrow> update_manager \<Rightarrow> status \<times> del_vector \<times> update_manager" where
  "get_latest_del_vec meta tsid um =
     (case del_vec_cache um tsid of
        Some cached \<Rightarrow> (Status_OK, cached, um)
      | None \<Rightarrow>
          (case get_del_vec_in_meta meta tsid INT64_MAX um of
             ((st, delvec, latest_version), um1) \<Rightarrow>
               if \<not> ok st then (st, delvec, um1)
               else
                 (Status_OK, delvec,
                  um1\<lparr>del_vec_cache := (del_vec_cache um1)(tsid \<mapsto> delvec),
                      del_vec_cache_mem_tracker :=
                        consume (dv_memory_usage delvec) (del_vec_cache_mem_tracker um1)\<rparr>)))"

text \<open>\<^verbatim>\<open>set_cached_del_vec\<close>: one block under the lock.\<close>

definition set_cached_del_vec ::
  "tablet_segment_id \<Rightarrow> del_vector \<Rightarrow> update_manager \<Rightarrow> status \<times> update_manager" where
  "set_cached_del_vec tsid delvec um =
     (case del_vec_cache um tsid of
        Some cached \<Rightarrow>
          if dv_version delvec \<le> dv_version cached then
            (Status InternalError
               (''UpdateManager::set_cached_del_vec: new version('' @ substitute_int (dv_version delvec)
                  @ '') < old version('' @ substitute_int (dv_version cached) @ '')''),
             um)
          else
            (Status_OK,
             um\<lparr>del_vec_cache := (del_vec_cache um)(tsid \<mapsto> delvec),
                del_vec_cache_mem_tracker :=
                  consume (dv_memory_usage delvec)
                    (release (dv_memory_usage cached) (del_vec_cache_mem_tracker um))\<rparr>)
      | None \<Rightarrow>
          (Status_OK,
           um\<lparr>del_vec_cache := (del_vec_cache um)(tsid \<mapsto> delvec),
              del_vec_cache_mem_tracker :=
                consume (dv_memory_usage delvec) (del_vec_cache_mem_tracker um)\<rparr>))"

section \<open>Delta-column-group cache\<close>

subsection \<open>The ordered map\<close>

text \<open>
  \<^verbatim>\<open>_delta_column_group_cache\<close> is a \<^verbatim>\<open>std::map\<close>: the source calls \<^verbatim>\<open>lower_bound\<close> on it
  and walks it in key order. It is an association list kept in ascending key order;
  \<^verbatim>\<open>find\<close> is \<open>map_of\<close>.
\<close>

definition dcg_cache_ordered :: "(tablet_segment_id \<times> 'v) list \<Rightarrow> bool" where
  "dcg_cache_ordered c \<longleftrightarrow> sorted_wrt tsid_less (map fst c)"

text \<open>\<^verbatim>\<open>operator[]\<close> followed by assignment: replaces the value or links a new node in order.\<close>

fun om_assign :: "tablet_segment_id \<Rightarrow> 'v \<Rightarrow> (tablet_segment_id \<times> 'v) list \<Rightarrow> (tablet_segment_id \<times> 'v) list" where
  "om_assign k v [] = [(k, v)]"
| "om_assign k v (e # es) =
     (if fst e = k then (k, v) # es
      else if tsid_less k (fst e) then (k, v) # e # es
      else e # om_assign k v es)"

text \<open>\<^verbatim>\<open>insert\<close>: links the pair unless the key is present; the flag is \<^verbatim>\<open>.second\<close>.\<close>

definition om_insert ::
  "tablet_segment_id \<Rightarrow> 'v \<Rightarrow> (tablet_segment_id \<times> 'v) list \<Rightarrow> (tablet_segment_id \<times> 'v) list \<times> bool" where
  "om_insert k v c = (case map_of c k of None \<Rightarrow> (om_assign k v c, True) | Some _ \<Rightarrow> (c, False))"

definition om_erase :: "tablet_segment_id \<Rightarrow> (tablet_segment_id \<times> 'v) list \<Rightarrow> (tablet_segment_id \<times> 'v) list" where
  "om_erase k c = filter (\<lambda>e. fst e \<noteq> k) c"

subsection \<open>Helpers of the storage engine\<close>

text \<open>
  Modelled from the spec: \<^verbatim>\<open>StorageEngine::search_delta_column_groups_by_version\<close> (not
  among the sources). A lookup for read version \<open>V\<close> gives the list of deltas still
  relevant, those whose version is at most \<open>V\<close>, most recent first as cached; they are
  added to the caller's list.
\<close>

definition search_delta_column_groups_by_version ::
  "delta_column_group_list \<Rightarrow> int \<Rightarrow> delta_column_group_list \<Rightarrow> delta_column_group_list" where
  "search_delta_column_groups_by_version all_dcgs version dcgs =
     dcgs @ filter (\<lambda>dcg. dcg_version dcg \<le> version) all_dcgs"

text \<open>
  Modelled from the spec: \<^verbatim>\<open>StorageEngine::delta_column_group_list_memory_usage\<close> (not
  among the sources): the total memory usage of the list's deltas.
\<close>

definition delta_column_group_list_memory_usage :: "delta_column_group_list \<Rightarrow> nat" where
  "delta_column_group_list_memory_usage dcgs = sum_list (map dcg_memory_usage dcgs)"

text \<open>
  Modelled from the spec: \<^verbatim>\<open>DeltaColumnGroupListHelper::garbage_collection\<close> (not among
  the sources). A lookup for read version \<open>V\<close> must return the most recent delta
  whose version is at most \<open>V\<close>, and no future read is below the minimum readable
  version. Garbage collection removes the entries whose effective version is below the
  minimum readable version, provided doing so does not remove the only version still
  needed: the most recent entry whose version is at most the minimum readable version is
  the one a read at that version returns, and it stays; every entry below the minimum
  that comes after it in the list, which is most recent first, is unreachable by any
  future read and is removed.

  \<open>gc_walk\<close> goes through the list; \<open>needed_seen\<close> says whether an entry
  of a version at most the minimum has been passed. It gives the entries that stay and
  the entries that go.
\<close>

fun gc_walk ::
  "bool \<Rightarrow> int \<Rightarrow> delta_column_group_list \<Rightarrow> delta_column_group_list \<times> delta_column_group_list" where
  "gc_walk needed_seen min_readable_version [] = ([], [])"
| "gc_walk needed_seen min_readable_version (dcg # dcgs) =
     (case gc_walk (needed_seen \<or> dcg_version dcg \<le> min_readable_version)
             min_readable_version dcgs of
        (kept, garbage) \<Rightarrow>
          if needed_seen \<and> dcg_version dcg < min_readable_version
          then (kept, dcg # garbage)
          else (dcg # kept, garbage))"

text \<open>
  Modelled from the spec: garbage collection collects each removed entry, with its
  segment key, for deletion from the metadata store and its column files, under the
  tablet's path, for physical removal. The result is the list that stays, the collected
  entries and the collected file names.
\<close>

definition garbage_collection ::
  "delta_column_group_list \<Rightarrow> tablet_segment_id \<Rightarrow> int \<Rightarrow> string \<Rightarrow>
     delta_column_group_list \<times> (tablet_segment_id \<times> int) list \<times> string list" where
  "garbage_collection dcg_list tsid min_readable_version dir =
     (case gc_walk False min_readable_version dcg_list of
        (kept, garbage) \<Rightarrow>
          (kept,
           map (\<lambda>dcg. (tsid, dcg_version dcg)) garbage,
           concat (map (\<lambda>dcg. map (\<lambda>f. dir @ ''/'' @ f) (dcg_column_files dcg)) garbage)))"

subsection \<open>Lookups\<close>

text \<open>
  \<^verbatim>\<open>get_cached_delta_column_group\<close>: one block under \<^verbatim>\<open>_delta_column_group_cache_lock\<close>.
  \<open>dcgs\<close> is the caller's list; the result is the flag, the list afterwards and the
  state afterwards.
\<close>

definition get_cached_delta_column_group ::
  "tablet_segment_id \<Rightarrow> int \<Rightarrow> delta_column_group_list \<Rightarrow> update_manager \<Rightarrow>
     bool \<times> delta_column_group_list \<times> update_manager" where
  "get_cached_delta_column_group tsid version dcgs um =
     (case map_of (delta_column_group_cache um) tsid of
        Some cached \<Rightarrow> (True, search_delta_column_groups_by_version cached version dcgs, um)
      | None \<Rightarrow> (False, dcgs, um))"

text \<open>\<^verbatim>\<open>get_delta_column_group\<close>, last block: the fill under the lock.\<close>

definition get_delta_column_group_fill ::
  "tablet_segment_id \<Rightarrow> delta_column_group_list \<Rightarrow> update_manager \<Rightarrow> update_manager" where
  "get_delta_column_group_fill tsid new_dcgs um =
     (case om_insert tsid new_dcgs (delta_column_group_cache um) of
        (c, inserted) \<Rightarrow>
          if inserted then
            um\<lparr>delta_column_group_cache := c,
               delta_column_group_cache_mem_tracker :=
                 consume (delta_column_group_list_memory_usage new_dcgs)
                   (delta_column_group_cache_mem_tracker um)\<rparr>
          else um\<lparr>delta_column_group_cache := c\<rparr>)"

text \<open>\<^verbatim>\<open>TabletMetaManager::get_delta_column_group\<close>: the call to the store, outside the lock.\<close>

definition load_delta_column_group ::
  "kv_store \<Rightarrow> tablet_segment_id \<Rightarrow> int \<Rightarrow> update_manager \<Rightarrow>
     (status \<times> delta_column_group_list) \<times> update_manager" where
  "load_delta_column_group meta tsid version um =
     (get_delta_column_group_in_meta meta tsid version,
      um\<lparr>external_calls := external_calls um @ [GetDeltaColumnGroup tsid version]\<rparr>)"

text \<open>
  \<^verbatim>\<open>get_delta_column_group\<close>. The counters of \<^verbatim>\<open>StarRocksMetrics\<close> belong to the process
  and are not part of the state.
\<close>

definition get_delta_column_group ::
  "kv_store \<Rightarrow> tablet_segment_id \<Rightarrow> int \<Rightarrow> delta_column_group_list \<Rightarrow> update_manager \<Rightarrow>
     status \<times> delta_column_group_list \<times> update_manager" where
  "get_delta_column_group meta tsid version dcgs um =
     (case map_of (delta_column_group_cache um) tsid of
        Some cached \<Rightarrow> (Status_OK, search_delta_column_groups_by_version cached version dcgs, um)
      | None \<Rightarrow>
          (case load_delta_column_group meta tsid INT64_MAX um of
             ((st, new_dcgs), um1) \<Rightarrow>
               if \<not> ok st then (st, dcgs, um1)
               else (Status_OK, search_delta_column_groups_by_version new_dcgs version dcgs,
                     get_delta_column_group_fill tsid new_dcgs um1)))"

subsection \<open>Publishing\<close>

text \<open>\<^verbatim>\<open>set_cached_empty_delta_column_group\<close>: a lookup block, the store call, a fill block.\<close>

definition set_cached_empty_delta_column_group_fill ::
  "tablet_segment_id \<Rightarrow> delta_column_group_list \<Rightarrow> update_manager \<Rightarrow> update_manager" where
  "set_cached_empty_delta_column_group_fill tsid new_dcgs um =
     (case map_of (delta_column_group_cache um) tsid of
        Some _ \<Rightarrow> um
      | None \<Rightarrow>
          if new_dcgs = [] then
            um\<lparr>delta_column_group_cache := om_assign tsid new_dcgs (delta_column_group_cache um)\<rparr>
          else um)"

definition set_cached_empty_delta_column_group ::
  "kv_store \<Rightarrow> tablet_segment_id \<Rightarrow> update_manager \<Rightarrow> status \<times> update_manager" where
  "set_cached_empty_delta_column_group meta tsid um =
     (case map_of (delta_column_group_cache um) tsid of
        Some _ \<Rightarrow> (Status_OK, um)
      | None \<Rightarrow>
          (case load_delta_column_group meta tsid INT64_MAX um of
             ((st, new_dcgs), um1) \<Rightarrow>
               if \<not> ok st then (st, um1)
               else (Status_OK, set_cached_empty_delta_column_group_fill tsid new_dcgs um1)))"

text \<open>\<^verbatim>\<open>set_cached_delta_column_group\<close>: a prepend block, the store call, a replace block.\<close>

definition set_cached_delta_column_group_replace ::
  "tablet_segment_id \<Rightarrow> delta_column_group_list \<Rightarrow> update_manager \<Rightarrow> update_manager" where
  "set_cached_delta_column_group_replace tsid new_dcgs um =
     (let released =
            (case map_of (delta_column_group_cache um) tsid of
               Some cached \<Rightarrow>
                 release (delta_column_group_list_memory_usage cached)
                   (delta_column_group_cache_mem_tracker um)
             | None \<Rightarrow> delta_column_group_cache_mem_tracker um)
      in um\<lparr>delta_column_group_cache := om_assign tsid new_dcgs (delta_column_group_cache um),
            delta_column_group_cache_mem_tracker :=
              consume (delta_column_group_list_memory_usage new_dcgs) released\<rparr>)"

definition set_cached_delta_column_group ::
  "kv_store \<Rightarrow> tablet_segment_id \<Rightarrow> delta_column_group \<Rightarrow> update_manager \<Rightarrow> status \<times> update_manager" where
  "set_cached_delta_column_group meta tsid dcg um =
     (case map_of (delta_column_group_cache um) tsid of
        Some cached \<Rightarrow>
          (Status_OK,
           um\<lparr>delta_column_group_cache := om_assign tsid (dcg # cached) (delta_column_group_cache um),
              delta_column_group_cache_mem_tracker :=
                consume (dcg_memory_usage dcg) (delta_column_group_cache_mem_tracker um)\<rparr>)
      | None \<Rightarrow>
          (case load_delta_column_group meta tsid INT64_MAX um of
             ((st, new_dcgs), um1) \<Rightarrow>
               if \<not> ok st then (st, um1)
               else (Status_OK, set_cached_delta_column_group_replace tsid new_dcgs um1)))"

subsection \<open>Invalidation\<close>

text \<open>\<^verbatim>\<open>clear_cached_delta_column_group\<close>: the loop over the given keys, under the lock.\<close>

fun clear_cached_delta_column_group :: "tablet_segment_id list \<Rightarrow> update_manager \<Rightarrow> update_manager" where
  "clear_cached_delta_column_group [] um = um"
| "clear_cached_delta_column_group (tsid # tsids) um =
     clear_cached_delta_column_group tsids
       (case map_of (delta_column_group_cache um) tsid of
          Some cached \<Rightarrow>
            um\<lparr>delta_column_group_cache_mem_tracker :=
                 release (delta_column_group_list_memory_usage cached)
                   (delta_column_group_cache_mem_tracker um),
               delta_column_group_cache := om_erase tsid (delta_column_group_cache um)\<rparr>
        | None \<Rightarrow> um)"

text \<open>
  \<^verbatim>\<open>clear_cached_delta_column_group_by_tablet_id\<close>: the loop over the whole map; the
  first function walks the nodes and gives the nodes that stay and the tracker.
\<close>

fun erase_tablet_nodes ::
  "int \<Rightarrow> (tablet_segment_id \<times> delta_column_group_list) list \<Rightarrow> nat \<Rightarrow>
     (tablet_segment_id \<times> delta_column_group_list) list \<times> nat" where
  "erase_tablet_nodes tablet [] tracker = ([], tracker)"
| "erase_tablet_nodes tablet (e # es) tracker =
     (if tablet_id (fst e) = tablet then
        erase_tablet_nodes tablet es (release (delta_column_group_list_memory_usage (snd e)) tracker)
      else
        (case erase_tablet_nodes tablet es tracker of (kept, tracker') \<Rightarrow> (e # kept, tracker')))"

definition clear_cached_delta_column_group_by_tablet_id :: "int \<Rightarrow> update_manager \<Rightarrow> update_manager" where
  "clear_cached_delta_column_group_by_tablet_id tablet um =
     (case erase_tablet_nodes tablet (delta_column_group_cache um)
             (delta_column_group_cache_mem_tracker um) of
        (kept, tracker) \<Rightarrow>
          um\<lparr>delta_column_group_cache := kept, delta_column_group_cache_mem_tracker := tracker\<rparr>)"

subsection \<open>Garbage collection below the minimum readable version\<close>

text \<open>
  The loop of \<^verbatim>\<open>clear_delta_column_group_before_version\<close>, from the node \<^verbatim>\<open>lower_bound\<close> found.
  \<open>now\<close> gives the readings of \<^verbatim>\<open>UnixMillis()\<close> in the order they are taken: reading 0 is
  \<open>begin_ms\<close>, and each pass of the loop that finds a node takes the next one in
  \<^verbatim>\<open>is_timeout()\<close>. The result is the nodes from there on as the loop leaves them, and
  what it appended to \<^verbatim>\<open>clear_dcgs\<close> and \<^verbatim>\<open>clear_filenames\<close>.
\<close>

fun gc_loop ::
  "(nat \<Rightarrow> int) \<Rightarrow> nat \<Rightarrow> int \<Rightarrow> int \<Rightarrow> string \<Rightarrow>
     (tablet_segment_id \<times> delta_column_group_list) list \<Rightarrow>
     (tablet_segment_id \<times> delta_column_group_list) list \<times> (tablet_segment_id \<times> int) list \<times> string list" where
  "gc_loop now n tablet min_readable_version tablet_path [] = ([], [], [])"
| "gc_loop now n tablet min_readable_version tablet_path (e # es) =
     (if now n > now 0 + 10 then (e # es, [], [])
      else if tablet_id (fst e) \<noteq> tablet then (e # es, [], [])
      else
        (case garbage_collection (snd e) (fst e) min_readable_version tablet_path of
           (kept, garbage, files) \<Rightarrow>
             (case gc_loop now (Suc n) tablet min_readable_version tablet_path es of
                (es', garbage', files') \<Rightarrow>
                  ((fst e, kept) # es', garbage @ garbage', files @ files'))))"

text \<open>
  The block under the lock: \<^verbatim>\<open>lower_bound(TabletSegmentId(tablet_id, 0))\<close>, then the loop.
  The tracker is not touched in this block.
\<close>

definition gc_under_lock ::
  "(nat \<Rightarrow> int) \<Rightarrow> int \<Rightarrow> int \<Rightarrow> string \<Rightarrow> update_manager \<Rightarrow>
     update_manager \<times> (tablet_segment_id \<times> int) list \<times> string list" where
  "gc_under_lock now tablet min_readable_version tablet_path um =
     (let before = takeWhile (\<lambda>e. tsid_less (fst e) (TabletSegmentId tablet 0)) (delta_column_group_cache um);
          from_itr = dropWhile (\<lambda>e. tsid_less (fst e) (TabletSegmentId tablet 0)) (delta_column_group_cache um)
      in (case gc_loop now 1 tablet min_readable_version tablet_path from_itr of
            (swept, clear_dcgs, clear_filenames) \<Rightarrow>
              (um\<lparr>delta_column_group_cache := before @ swept\<rparr>, clear_dcgs, clear_filenames)))"

text \<open>
  \<^verbatim>\<open>clear_delta_column_group_before_version\<close>. After the block under the lock: one
  \<^verbatim>\<open>delete_delta_column_group\<close> per collected entry into the write batch (a failure is
  logged and the loop continues; the batch \<open>wb\<close> holds the deletions that
  succeeded), \<^verbatim>\<open>write_batch\<close> (a failure is returned), the
  filesystem of the tablet's path (a failure is returned), one \<^verbatim>\<open>delete_file\<close> per
  collected file name (a failure is logged), then the number of collected entries.
  \<^verbatim>\<open>StatusOr<size_t>\<close> is \<open>status + nat\<close>.
\<close>

definition clear_delta_column_group_before_version ::
  "kv_store \<Rightarrow> file_system \<Rightarrow> (nat \<Rightarrow> int) \<Rightarrow> string \<Rightarrow> int \<Rightarrow> int \<Rightarrow> update_manager \<Rightarrow>
     (status + nat) \<times> update_manager" where
  "clear_delta_column_group_before_version meta fs now tablet_path tablet min_readable_version um =
     (case gc_under_lock now tablet min_readable_version tablet_path um of
        (um1, clear_dcgs, clear_filenames) \<Rightarrow>
          (let wb = filter (\<lambda>d. ok (delete_delta_column_group meta (fst d) (snd d))) clear_dcgs;
               um2 = um1\<lparr>external_calls := external_calls um1
                        @ map (\<lambda>d. DeleteDeltaColumnGroup (fst d) (snd d)) clear_dcgs @ [WriteBatch wb]\<rparr>
           in if \<not> ok (write_batch meta wb) then (Inl (write_batch meta wb), um2)
              else if \<not> ok (create_shared_from_string fs tablet_path)
                then (Inl (create_shared_from_string fs tablet_path), um2)
              else (Inr (length clear_dcgs),
                    um2\<lparr>external_calls := external_calls um2 @ map DeleteFile clear_filenames\<rparr>)))"

section \<open>Ingestion lifecycle\<close>

datatype tablet_state = TABLET_NOTREADY | TABLET_RUNNING | TABLET_TOMBSTONED | TABLET_STOPPED | TABLET_SHUTDOWN

record tablet =
  t_tablet_id :: int
  t_tablet_state :: tablet_state

text \<open>\<open>rs_rowset_id\<close> is \<^verbatim>\<open>rowset->rowset_id().to_string()\<close>.\<close>

record rowset =
  rs_rowset_id :: string
  rs_has_data_files :: bool
  rs_is_partial_update :: bool
  rs_is_column_mode_partial_update :: bool

text \<open>
  What the collaborators of \<^verbatim>\<open>on_rowset_finished\<close> answer: the index load executor's
  \<^verbatim>\<open>submit_task_and_wait_for\<close>, the state's \<^verbatim>\<open>load\<close> and the state it leaves behind, the
  reading of \<^verbatim>\<open>MonotonicMillis()\<close>, the clock as the cache reads it in \<open>release\<close>, and
  whether the fail point \<^verbatim>\<open>on_rowset_finished_failed_due_to_mem\<close> is triggered.
\<close>

record rowset_finished_env =
  pindex_load_task_status :: status
  load_status :: status
  loaded_state :: rowset_update_state
  monotonic_millis :: int
  release_millis :: int
  fail_point_triggered :: bool

text \<open>\<^verbatim>\<open>strings::Substitute("$0_$1", tablet->tablet_id(), rowset_unique_id)\<close>.\<close>

definition state_cache_key :: "tablet \<Rightarrow> rowset \<Rightarrow> string" where
  "state_cache_key t r = substitute_int (t_tablet_id t) @ ''_'' @ rs_rowset_id r"

text \<open>
  One branch of \<^verbatim>\<open>on_rowset_finished\<close> on its cache: \<open>get_or_create\<close>, the load, the
  expiration time and object size, then \<open>release\<close> on success and \<open>remove\<close> on
  failure. Both branches of the source run these same steps, each on its own cache.
\<close>

definition load_state_entry ::
  "rowset_finished_env \<Rightarrow> int \<Rightarrow> string \<Rightarrow>
     (string, rowset_update_state) dynamic_cache \<Rightarrow> (string, rowset_update_state) dynamic_cache" where
  "load_state_entry env expire_ms key c =
     (let c1 = dc_get_or_create key \<lparr>rus_memory_usage = 0\<rparr> c;
          c2 = dc_set_value key (loaded_state env) c1;
          c3 = dc_update_expire_time key (monotonic_millis env + expire_ms) c2;
          c4 = dc_update_object_size key (rus_memory_usage (loaded_state env)) c3
      in if ok (load_status env) then dc_release key (release_millis env) c4
         else dc_remove key c4)"

definition on_rowset_finished ::
  "rowset_finished_env \<Rightarrow> tablet \<Rightarrow> rowset \<Rightarrow> update_manager \<Rightarrow> status \<times> update_manager" where
  "on_rowset_finished env t r um =
     (if \<not> rs_has_data_files r \<or> t_tablet_state t = TABLET_NOTREADY then (Status_OK, um)
      else if rs_is_partial_update r \<and> \<not> ok (pindex_load_task_status env)
        then (Status Uninitialized (st_message (pindex_load_task_status env)), um)
      else
        (let key = state_cache_key t r;
             um1 = (if rs_is_column_mode_partial_update r
                    then um\<lparr>update_column_state_cache :=
                              load_state_entry env (cache_expire_ms um) key (update_column_state_cache um)\<rparr>
                    else um\<lparr>update_state_cache :=
                              load_state_entry env (cache_expire_ms um) key (update_state_cache um)\<rparr>);
             st = (if fail_point_triggered env
                   then Status MemLimitExceeded ''on_rowset_finished failed''
                   else load_status env)
         in if is_mem_limit_exceeded st \<or> is_time_out st then (Status_OK, um1) else (st, um1)))"

text \<open>
  \<^verbatim>\<open>TEST_update_state_exist\<close>; \<open>now_ms\<close> is the clock as the cache reads it in
  \<open>release\<close>.
\<close>

definition TEST_update_state_exist :: "int \<Rightarrow> tablet \<Rightarrow> rowset \<Rightarrow> update_manager \<Rightarrow> bool \<times> update_manager" where
  "TEST_update_state_exist now_ms t r um =
     (let key = state_cache_key t r in
      if rs_is_column_mode_partial_update r then
        (case dc_get key (update_column_state_cache um) of
           (True, c) \<Rightarrow> (True, um\<lparr>update_column_state_cache := dc_release key now_ms c\<rparr>)
         | (False, c) \<Rightarrow> (False, um))
      else
        (case dc_get key (update_state_cache um) of
           (True, c) \<Rightarrow> (True, um\<lparr>update_state_cache := dc_release key now_ms c\<rparr>)
         | (False, c) \<Rightarrow> (False, um)))"

section \<open>Eviction\<close>

text \<open>
  \<^verbatim>\<open>evict_cache\<close> computes in \<^verbatim>\<open>int64_t\<close>: products wrap, \<^verbatim>\<open>/\<close> truncates towards zero,
  \<^verbatim>\<open>size > memory_urgent\<close> and \<^verbatim>\<open>std::max\<close> compare signed. \<^verbatim>\<open>capacity()\<close> and \<^verbatim>\<open>size()\<close>
  are \<^verbatim>\<open>size_t\<close>, \<^verbatim>\<open>try_evict\<close> takes a \<^verbatim>\<open>size_t\<close>, and the last comparison,
  \<^verbatim>\<open>_index_cache.size() > memory_high\<close>, is between a \<^verbatim>\<open>size_t\<close> and an \<^verbatim>\<open>int64_t\<close> and so
  unsigned.
\<close>

definition int64_div :: "64 word \<Rightarrow> 64 word \<Rightarrow> 64 word" where
  "int64_div a b = word_of_int (sint a sdiv sint b)"

definition int64_max :: "64 word \<Rightarrow> 64 word \<Rightarrow> 64 word" where
  "int64_max a b = (if a <s b then b else a)"

definition evict_cache :: "64 word \<Rightarrow> 64 word \<Rightarrow> update_manager \<Rightarrow> update_manager" where
  "evict_cache memory_urgent_level memory_high_level um =
     (let capacity = (word_of_nat (dc_capacity (index_cache um)) :: 64 word);
          size0 = (word_of_nat (dc_size (index_cache um)) :: 64 word);
          memory_urgent = int64_div (capacity * memory_urgent_level) 100;
          memory_high = int64_div (capacity * memory_high_level) 100;
          c1 = (if memory_urgent <s size0 then dc_try_evict (unat memory_urgent) (index_cache um)
                else index_cache um);
          size1 = (word_of_nat (dc_size c1) :: 64 word);
          c2 = (if memory_high <s size1
                then dc_try_evict (unat (int64_max (int64_div (size1 * 9) 10) memory_high)) c1
                else c1)
      in um\<lparr>index_cache := c2,
            keep_pindex_bf := (if memory_high < word_of_nat (dc_size c2) then False else True)\<rparr>)"

section \<open>Concrete scenarios\<close>

text \<open>
  The scenario of the specification: tablet 7, segment 3; the store holds the delete
  vector of version 1 (rows 2 and 5 deleted) and that of version 3 (rows 2, 5 and 9),
  answers a request with the newest vector not above the requested version, and reports
  3 as the latest version.
\<close>

definition tsid_7_3 :: tablet_segment_id where
  "tsid_7_3 = TabletSegmentId 7 3"

definition delvec_v1 :: del_vector where
  "delvec_v1 = \<lparr>dv_version = 1, dv_deleted = [2, 5], dv_memory_usage = 16\<rparr>"

definition delvec_v3 :: del_vector where
  "delvec_v3 = \<lparr>dv_version = 3, dv_deleted = [2, 5, 9], dv_memory_usage = 24\<rparr>"

definition delvec_v4 :: del_vector where
  "delvec_v4 = \<lparr>dv_version = 4, dv_deleted = [2, 5, 9, 11], dv_memory_usage = 32\<rparr>"

definition example_store :: kv_store where
  "example_store =
     \<lparr>get_del_vector = (\<lambda>tsid version.
          if version \<ge> 3 then (Status_OK, delvec_v3, 3) else (Status_OK, delvec_v1, 3)),
      get_delta_column_group_in_meta = (\<lambda>tsid version. (Status_OK, [])),
      delete_delta_column_group = (\<lambda>tsid version. Status_OK),
      write_batch = (\<lambda>batch. Status_OK)\<rparr>"

text \<open>A store that holds the vector of version 1 only.\<close>

definition store_at_v1 :: kv_store where
  "store_at_v1 = example_store\<lparr>get_del_vector := (\<lambda>tsid version. (Status_OK, delvec_v1, 1))\<rparr>"

text \<open>A store that has moved on to the vector of version 4.\<close>

definition store_at_v4 :: kv_store where
  "store_at_v4 = example_store\<lparr>get_del_vector := (\<lambda>tsid version. (Status_OK, delvec_v4, 4))\<rparr>"

definition example_fs :: file_system where
  "example_fs = \<lparr>create_shared_from_string = (\<lambda>path. Status_OK), delete_file = (\<lambda>name. Status_OK)\<rparr>"

text \<open>A manager with nothing cached and an index cache of capacity 1000.\<close>

definition um_cold :: update_manager where
  "um_cold =
     \<lparr>del_vec_cache = Map.empty, del_vec_cache_mem_tracker = 0,
      delta_column_group_cache = [], delta_column_group_cache_mem_tracker = 0,
      index_cache = \<lparr>dc_entries = [], dc_capacity = 1000, dc_ttl_ms = 360000\<rparr>,
      update_state_cache = \<lparr>dc_entries = [], dc_capacity = 2 ^ 64 - 1, dc_ttl_ms = 360000\<rparr>,
      update_column_state_cache = \<lparr>dc_entries = [], dc_capacity = 2 ^ 64 - 1, dc_ttl_ms = 360000\<rparr>,
      keep_pindex_bf = True, cache_expire_ms = 360000, external_calls = []\<rparr>"

text \<open>The same manager with the vector of version 3 cached for the segment.\<close>

definition um_v3 :: update_manager where
  "um_v3 = um_cold\<lparr>del_vec_cache := [tsid_7_3 \<mapsto> delvec_v3], del_vec_cache_mem_tracker := 24\<rparr>"

text \<open>
  Delta column groups of versions 1, 2 and 5, and a manager that caches them for segments
  of tablets 6, 7 and 8; the tracker holds the total of their memory usage.
\<close>

definition dcg_v1 :: delta_column_group where
  "dcg_v1 = \<lparr>dcg_version = 1, dcg_column_files = [''a_1.cols''], dcg_memory_usage = 100\<rparr>"

definition dcg_v2 :: delta_column_group where
  "dcg_v2 = \<lparr>dcg_version = 2, dcg_column_files = [''b_2.cols''], dcg_memory_usage = 60\<rparr>"

definition dcg_v5 :: delta_column_group where
  "dcg_v5 = \<lparr>dcg_version = 5, dcg_column_files = [''a_5.cols''], dcg_memory_usage = 40\<rparr>"

definition um_dcg :: update_manager where
  "um_dcg = um_cold\<lparr>delta_column_group_cache :=
       [(TabletSegmentId 6 9, [dcg_v1]), (TabletSegmentId 7 3, [dcg_v5, dcg_v1]),
        (TabletSegmentId 7 4, [dcg_v2]), (TabletSegmentId 8 0, [dcg_v1])],
     delta_column_group_cache_mem_tracker := 400\<rparr>"

text \<open>
  The same manager when segment 3 of tablet 7 has a longer history: versions 5, 2 and 1.
\<close>

definition um_dcg_history :: update_manager where
  "um_dcg_history = um_dcg\<lparr>delta_column_group_cache :=
       [(TabletSegmentId 6 9, [dcg_v1]), (TabletSegmentId 7 3, [dcg_v5, dcg_v2, dcg_v1]),
        (TabletSegmentId 7 4, [dcg_v2]), (TabletSegmentId 8 0, [dcg_v1])],
     delta_column_group_cache_mem_tracker := 460\<rparr>"

text \<open>A clock that advances by one millisecond from one reading to the next.\<close>

definition steady_clock :: "nat \<Rightarrow> int" where
  "steady_clock n = 1000 + int n"

text \<open>
  An index cache of capacity 1000 that holds three indexes, of sizes 500, 300 and 150; the
  first is in use by two borrowers.
\<close>

definition um_index :: update_manager where
  "um_index = um_cold\<lparr>index_cache :=
     \<lparr>dc_entries =
        [(1, \<lparr>ce_value = (), ce_ref = 2, ce_expire_ms = 5000, ce_size = 500\<rparr>),
         (2, \<lparr>ce_value = (), ce_ref = 0, ce_expire_ms = 5000, ce_size = 300\<rparr>),
         (3, \<lparr>ce_value = (), ce_ref = 0, ce_expire_ms = 5000, ce_size = 150\<rparr>)],
      dc_capacity = 1000, dc_ttl_ms = 360000\<rparr>\<rparr>"

text \<open>
  A rowset of tablet 7 with data files, and two ways its state load can fail: on the
  memory limit, and on a corrupt file.
\<close>

definition tablet_7 :: tablet where
  "tablet_7 = \<lparr>t_tablet_id = 7, t_tablet_state = TABLET_RUNNING\<rparr>"

definition rowset_a :: rowset where
  "rowset_a = \<lparr>rs_rowset_id = ''02000000000000a1'', rs_has_data_files = True,
     rs_is_partial_update = False, rs_is_column_mode_partial_update = False\<rparr>"

definition env_mem_limit :: rowset_finished_env where
  "env_mem_limit =
     \<lparr>pindex_load_task_status = Status_OK,
      load_status = Status MemLimitExceeded ''Memory of rowset_update_state exceed limit'',
      loaded_state = \<lparr>rus_memory_usage = 4096\<rparr>,
      monotonic_millis = 1000, release_millis = 1001, fail_point_triggered = False\<rparr>"

definition env_corruption :: rowset_finished_env where
  "env_corruption = env_mem_limit\<lparr>load_status := Status Corruption ''bad segment footer''\<rparr>"

section \<open>Measures of the delta-column-group cache\<close>



text \<open>The total memory usage of the lists the cache holds.\<close>

definition dcg_cache_memory_usage :: "(tablet_segment_id \<times> delta_column_group_list) list \<Rightarrow> nat" where
  "dcg_cache_memory_usage c = sum_list (map (\<lambda>e. delta_column_group_list_memory_usage (snd e)) c)"

section \<open>Consistency of the memory trackers\<close>

text \<open>
  The tracker of the delta-column-group cache is consistent when the cache is in key order
  and the tracker's consumption is the memory usage of the cached lists.
\<close>

definition dcg_tracker_consistent :: "update_manager \<Rightarrow> bool" where
  "dcg_tracker_consistent um \<longleftrightarrow>
     dcg_cache_ordered (delta_column_group_cache um)
     \<and> delta_column_group_cache_mem_tracker um
         = dcg_cache_memory_usage (delta_column_group_cache um)"

text \<open>
  The memory usage of the cached delete vectors, and the tracker of the delete-vector
  cache being consistent with it.
\<close>

definition del_vec_cache_memory_usage :: "(tablet_segment_id \<rightharpoonup> del_vector) \<Rightarrow> nat" where
  "del_vec_cache_memory_usage c = (\<Sum>k \<in> dom c. dv_memory_usage (the (c k)))"

definition del_vec_tracker_consistent :: "update_manager \<Rightarrow> bool" where
  "del_vec_tracker_consistent um \<longleftrightarrow>
     finite (dom (del_vec_cache um))
     \<and> del_vec_cache_mem_tracker um = del_vec_cache_memory_usage (del_vec_cache um)"


section \<open>Properties of the delete-vector cache\<close>

text \<open>
  Claim C1. For every segment key the version of the cached delete vector never decreases
  under \<open>set_cached_del_vec\<close> and \<open>get_del_vec\<close>: a key that holds a vector
  holds one of the same or a higher version afterwards. \<open>set_cached_del_vec\<close> with a
  version at or below the cached one answers \<open>InternalError\<close> and leaves the whole
  state as it was. The back-fill block of \<open>get_del_vec\<close>, run on any state, either
  leaves the cached vector in place or replaces it by one of a strictly higher version.
\<close>

theorem del_vec_version_monotone:
  assumes "del_vec_cache um k = Some old"
  shows "(k = tsid \<and> dv_version delvec \<le> dv_version old \<longrightarrow>
            st_code (fst (set_cached_del_vec tsid delvec um)) = InternalError
            \<and> snd (set_cached_del_vec tsid delvec um) = um)
       \<and> (\<exists>new. del_vec_cache (snd (set_cached_del_vec tsid delvec um)) k = Some new
              \<and> dv_version old \<le> dv_version new)
       \<and> (\<exists>new. del_vec_cache (snd (snd (get_del_vec meta tsid version um))) k = Some new
              \<and> dv_version old \<le> dv_version new)
       \<and> (del_vec_cache (get_del_vec_fill k delvec (dv_version delvec) um) k = Some old
            \<or> dv_version old < dv_version delvec
              \<and> del_vec_cache (get_del_vec_fill k delvec (dv_version delvec) um) k = Some delvec)"
  using assms
  by (auto simp: set_cached_del_vec_def get_del_vec_def get_del_vec_fill_def get_del_vec_lookup_def
      get_del_vec_in_meta_def Status_OK_def
      split: option.splits prod.splits if_splits)

theorem del_vec_version_monotone_witness:
  "del_vec_cache um_v3 tsid_7_3 = Some delvec_v3
   \<and> dv_version delvec_v1 \<le> dv_version delvec_v3
   \<and> st_code (fst (set_cached_del_vec tsid_7_3 delvec_v1 um_v3)) = InternalError
   \<and> snd (set_cached_del_vec tsid_7_3 delvec_v1 um_v3) = um_v3
   \<and> del_vec_cache (get_del_vec_fill tsid_7_3 delvec_v1 (dv_version delvec_v1) um_v3) tsid_7_3
       = Some delvec_v3"
proof -
  have cached: "del_vec_cache um_v3 tsid_7_3 = Some delvec_v3"
    by (simp add: um_v3_def)
  have older: "dv_version delvec_v1 \<le> dv_version delvec_v3"
    by (simp add: delvec_v1_def delvec_v3_def)
  have "\<not> dv_version delvec_v3 < dv_version delvec_v1"
    by (simp add: delvec_v1_def delvec_v3_def)
  with cached older
    del_vec_version_monotone [OF cached, of tsid_7_3 delvec_v1 example_store 0]
  show ?thesis by simp
qed

text \<open>
  Claim C2, as stated, fails. With the vector of version 3 cached, a request for version 2
  is not served from the cache although the cached version is at least the requested one:
  the guard of the lookup is \<^verbatim>\<open>version >= itr->second->version()\<close>, so the store is
  queried and the vector of version 1 comes back.
\<close>

theorem get_del_vec_newer_cached_is_a_miss:
  "del_vec_cache um_v3 tsid_7_3 = Some delvec_v3 \<and> 2 \<le> dv_version delvec_v3
   \<and> get_del_vec example_store tsid_7_3 2 um_v3
       = (Status_OK, delvec_v1, um_v3\<lparr>external_calls := [GetDelVector tsid_7_3 2]\<rparr>)
   \<and> delvec_v1 \<noteq> delvec_v3"
  by (simp add: get_del_vec_def get_del_vec_lookup_def get_del_vec_in_meta_def um_v3_def um_cold_def
      example_store_def delvec_v1_def delvec_v3_def Status_OK_def ok_def)

text \<open>
  Claim C2, amended. \<open>get_del_vec\<close> returns the cached delete vector and leaves the
  state, the trace of store calls included, as it was whenever a vector is cached for the
  key with a version less than or equal to the requested one. \<open>set_cached_del_vec\<close>
  publishes a vector, without a store call, exactly when the slot of the key is empty or
  holds a vector of a lower version; once it has published a vector of version
  \<open>W\<close>, into an empty slot or over an older vector, that vector is the cached one and
  every call with a requested version of at least \<open>W\<close> is such a hit and returns it.
\<close>

theorem get_del_vec_hit_on_older_cached:
  "(del_vec_cache um tsid = Some cached \<and> dv_version cached \<le> version \<longrightarrow>
      get_del_vec meta tsid version um = (Status_OK, cached, um))
   \<and> (fst (set_cached_del_vec tsid delvec um) = Status_OK
        \<longleftrightarrow> (case del_vec_cache um tsid of
               None \<Rightarrow> True
             | Some old \<Rightarrow> dv_version old < dv_version delvec))
   \<and> (fst (set_cached_del_vec tsid delvec um) = Status_OK \<longrightarrow>
        del_vec_cache (snd (set_cached_del_vec tsid delvec um)) tsid = Some delvec
        \<and> external_calls (snd (set_cached_del_vec tsid delvec um)) = external_calls um
        \<and> (dv_version delvec \<le> version' \<longrightarrow>
             get_del_vec meta tsid version' (snd (set_cached_del_vec tsid delvec um))
               = (Status_OK, delvec, snd (set_cached_del_vec tsid delvec um))))"
  by (auto simp: get_del_vec_def get_del_vec_lookup_def set_cached_del_vec_def Status_OK_def
      split: option.splits if_splits)

theorem get_del_vec_hit_on_older_cached_witness:
  "del_vec_cache um_v3 tsid_7_3 = Some delvec_v3 \<and> dv_version delvec_v3 \<le> 5
   \<and> get_del_vec example_store tsid_7_3 5 um_v3 = (Status_OK, delvec_v3, um_v3)
   \<and> del_vec_cache um_cold tsid_7_3 = None
   \<and> fst (set_cached_del_vec tsid_7_3 delvec_v3 um_cold) = Status_OK
   \<and> del_vec_cache (snd (set_cached_del_vec tsid_7_3 delvec_v3 um_cold)) tsid_7_3 = Some delvec_v3
   \<and> dv_version delvec_v3 \<le> 4
   \<and> get_del_vec example_store tsid_7_3 4 (snd (set_cached_del_vec tsid_7_3 delvec_v3 um_cold))
       = (Status_OK, delvec_v3, snd (set_cached_del_vec tsid_7_3 delvec_v3 um_cold))
   \<and> external_calls (snd (set_cached_del_vec tsid_7_3 delvec_v3 um_cold)) = []"
proof -
  have cached: "del_vec_cache um_v3 tsid_7_3 = Some delvec_v3"
    by (simp add: um_v3_def)
  have older: "dv_version delvec_v3 \<le> 5" and v3: "dv_version delvec_v3 \<le> 4"
    by (simp_all add: delvec_v3_def)
  have empty_slot: "del_vec_cache um_cold tsid_7_3 = None"
    and quiet: "external_calls um_cold = []"
    by (simp_all add: um_cold_def)
  from get_del_vec_hit_on_older_cached [of um_v3 tsid_7_3 delvec_v3 5 example_store delvec_v4 4]
    get_del_vec_hit_on_older_cached [of um_cold tsid_7_3 delvec_v3 5 example_store delvec_v3 4]
    cached older v3 empty_slot quiet
  show ?thesis by simp
qed

text \<open>
  Claim C3, as stated, fails. The lookup for version 2 misses while version 3 is cached;
  the store answers the vector of version 1 and reports 1 as its latest version. The
  loaded version equals the reported latest one, yet the back-fill finds a newer vector
  cached and publishes nothing.
\<close>

theorem get_del_vec_latest_not_published_over_newer:
  "get_del_vec_lookup tsid_7_3 2 um_v3 = None
   \<and> get_del_vector store_at_v1 tsid_7_3 2 = (Status_OK, delvec_v1, 1)
   \<and> dv_version delvec_v1 = 1
   \<and> get_del_vec store_at_v1 tsid_7_3 2 um_v3
       = (Status_OK, delvec_v1, um_v3\<lparr>external_calls := [GetDelVector tsid_7_3 2]\<rparr>)
   \<and> del_vec_cache (snd (snd (get_del_vec store_at_v1 tsid_7_3 2 um_v3))) tsid_7_3 = Some delvec_v3
   \<and> delvec_v3 \<noteq> delvec_v1"
  by (simp add: get_del_vec_def get_del_vec_lookup_def get_del_vec_in_meta_def get_del_vec_fill_def
      um_v3_def um_cold_def store_at_v1_def example_store_def delvec_v1_def delvec_v3_def
      Status_OK_def ok_def)

text \<open>
  Claim C3, amended. On a cache miss \<open>get_del_vec\<close> queries the store once and, when
  the load succeeds, returns the loaded vector. It publishes that vector into the cache
  if and only if its version equals the latest version the store reports and the cache
  holds, for the key, either nothing or a vector of a version below that latest version.
  In particular a loaded vector whose version differs from the reported latest one is
  returned and not inserted.
\<close>

theorem get_del_vec_publishes_latest_unless_newer_cached:
  assumes "get_del_vec_lookup tsid version um = None"
    and "get_del_vector meta tsid version = (st, delvec, latest_version)"
    and "ok st"
  shows "fst (get_del_vec meta tsid version um) = Status_OK
       \<and> fst (snd (get_del_vec meta tsid version um)) = delvec
       \<and> external_calls (snd (snd (get_del_vec meta tsid version um)))
           = external_calls um @ [GetDelVector tsid version]
       \<and> del_vec_cache (snd (snd (get_del_vec meta tsid version um)))
           = (if dv_version delvec = latest_version
                 \<and> (case del_vec_cache um tsid of
                      None \<Rightarrow> True
                    | Some cached \<Rightarrow> dv_version cached < latest_version)
              then (del_vec_cache um)(tsid \<mapsto> delvec)
              else del_vec_cache um)"
  using assms
  by (auto simp: get_del_vec_def get_del_vec_fill_def get_del_vec_in_meta_def
      split: option.splits)

theorem get_del_vec_publishes_latest_unless_newer_cached_witness:
  "get_del_vec_lookup tsid_7_3 3 um_cold = None
   \<and> get_del_vector example_store tsid_7_3 3 = (Status_OK, delvec_v3, 3)
   \<and> ok Status_OK
   \<and> fst (snd (get_del_vec example_store tsid_7_3 3 um_cold)) = delvec_v3
   \<and> del_vec_cache (snd (snd (get_del_vec example_store tsid_7_3 3 um_cold))) tsid_7_3 = Some delvec_v3"
proof -
  have miss: "get_del_vec_lookup tsid_7_3 3 um_cold = None"
    by (simp add: get_del_vec_lookup_def um_cold_def)
  have loaded: "get_del_vector example_store tsid_7_3 3 = (Status_OK, delvec_v3, 3)"
    by (simp add: example_store_def)
  have fine: "ok Status_OK"
    by (simp add: ok_def Status_OK_def)
  have "dv_version delvec_v3 = 3" and "del_vec_cache um_cold tsid_7_3 = None"
    by (simp_all add: delvec_v3_def um_cold_def)
  with get_del_vec_publishes_latest_unless_newer_cached [OF miss loaded fine] miss loaded fine
  show ?thesis by simp
qed

text \<open>
  Claim C8, as stated, fails. \<open>get_del_vec\<close> caches the vector of version 3 while 3
  is the store's latest version. The store then moves on to version 4: it answers the
  unbounded request with the vector of version 4. \<open>get_latest_del_vec\<close> finds the
  cached vector and returns it, of version 3, without asking the store: it does not
  resolve to the latest version.
\<close>

theorem get_latest_del_vec_returns_stale_cached:
  "get_del_vec example_store tsid_7_3 3 um_cold
     = (Status_OK, delvec_v3, um_v3\<lparr>external_calls := [GetDelVector tsid_7_3 3]\<rparr>)
   \<and> get_del_vector store_at_v4 tsid_7_3 INT64_MAX = (Status_OK, delvec_v4, 4)
   \<and> get_latest_del_vec store_at_v4 tsid_7_3 (um_v3\<lparr>external_calls := [GetDelVector tsid_7_3 3]\<rparr>)
       = (Status_OK, delvec_v3, um_v3\<lparr>external_calls := [GetDelVector tsid_7_3 3]\<rparr>)
   \<and> dv_version delvec_v3 = 3"
  by (simp add: get_del_vec_def get_del_vec_lookup_def get_del_vec_in_meta_def get_del_vec_fill_def
      get_latest_del_vec_def um_v3_def um_cold_def example_store_def store_at_v4_def
      delvec_v3_def delvec_v4_def Status_OK_def ok_def consume_def)

text \<open>
  Claim C8, amended. \<open>get_latest_del_vec\<close> takes no requested version and applies no
  version filter. On a hit it returns the cached vector, whatever the store holds, and
  leaves the state as it was. On a miss it queries the store once, with the unbounded
  version \<open>INT64_MAX\<close>; when the load succeeds it returns the loaded vector and
  inserts it into the cache, consuming its memory usage, and the returned vector is of the
  latest version the store reports whenever the store's answer to the unbounded request
  is of that version (the reported version itself is not looked at); from then on every
  call returns that same vector without a store call, whatever store \<open>meta'\<close> it is
  given. When the load fails it returns the store's status and caches nothing.
\<close>

theorem get_latest_del_vec_resolves:
  "(del_vec_cache um tsid = Some cached \<longrightarrow>
      get_latest_del_vec meta tsid um = (Status_OK, cached, um))
   \<and> (del_vec_cache um tsid = None
        \<and> get_del_vector meta tsid INT64_MAX = (st, delvec, latest_version) \<longrightarrow>
      external_calls (snd (snd (get_latest_del_vec meta tsid um)))
        = external_calls um @ [GetDelVector tsid INT64_MAX]
      \<and> fst (snd (get_latest_del_vec meta tsid um)) = delvec
      \<and> (ok st \<longrightarrow>
           fst (get_latest_del_vec meta tsid um) = Status_OK
           \<and> del_vec_cache (snd (snd (get_latest_del_vec meta tsid um)))
               = (del_vec_cache um)(tsid \<mapsto> delvec)
           \<and> del_vec_cache_mem_tracker (snd (snd (get_latest_del_vec meta tsid um)))
               = del_vec_cache_mem_tracker um + dv_memory_usage delvec
           \<and> (dv_version delvec = latest_version \<longrightarrow>
                dv_version (fst (snd (get_latest_del_vec meta tsid um))) = latest_version)
           \<and> get_latest_del_vec meta' tsid (snd (snd (get_latest_del_vec meta tsid um)))
               = (Status_OK, delvec, snd (snd (get_latest_del_vec meta tsid um))))
      \<and> (\<not> ok st \<longrightarrow>
           fst (get_latest_del_vec meta tsid um) = st
           \<and> del_vec_cache (snd (snd (get_latest_del_vec meta tsid um))) = del_vec_cache um))"
  by (simp add: get_latest_del_vec_def get_del_vec_in_meta_def consume_def)

theorem get_latest_del_vec_resolves_witness:
  "del_vec_cache um_v3 tsid_7_3 = Some delvec_v3
   \<and> get_latest_del_vec example_store tsid_7_3 um_v3 = (Status_OK, delvec_v3, um_v3)
   \<and> del_vec_cache um_cold tsid_7_3 = None
   \<and> get_del_vector example_store tsid_7_3 INT64_MAX = (Status_OK, delvec_v3, 3)
   \<and> ok Status_OK
   \<and> fst (snd (get_latest_del_vec example_store tsid_7_3 um_cold)) = delvec_v3
   \<and> del_vec_cache (snd (snd (get_latest_del_vec example_store tsid_7_3 um_cold))) tsid_7_3
       = Some delvec_v3
   \<and> dv_version delvec_v3 = 3
   \<and> dv_version (fst (snd (get_latest_del_vec example_store tsid_7_3 um_cold))) = 3
   \<and> get_latest_del_vec store_at_v4 tsid_7_3
        (snd (snd (get_latest_del_vec example_store tsid_7_3 um_cold)))
       = (Status_OK, delvec_v3, snd (snd (get_latest_del_vec example_store tsid_7_3 um_cold)))"
proof -
  have hit: "del_vec_cache um_v3 tsid_7_3 = Some delvec_v3"
    by (simp add: um_v3_def)
  have miss: "del_vec_cache um_cold tsid_7_3 = None"
    by (simp add: um_cold_def)
  have loaded: "get_del_vector example_store tsid_7_3 INT64_MAX = (Status_OK, delvec_v3, 3)"
    by (simp add: example_store_def INT64_MAX_def)
  have fine: "ok Status_OK"
    by (simp add: ok_def Status_OK_def)
  have latest: "dv_version delvec_v3 = 3"
    by (simp add: delvec_v3_def)
  from get_latest_del_vec_resolves [of um_v3 tsid_7_3 delvec_v3 example_store]
    get_latest_del_vec_resolves [of um_cold tsid_7_3 delvec_v3 example_store Status_OK delvec_v3 3 store_at_v4]
    hit miss loaded fine latest
  show ?thesis by simp
qed

section \<open>Properties of the delta-column-group cache\<close>

subsection \<open>Lookups and fills\<close>

lemma map_of_om_assign: "map_of (om_assign k v c) = (map_of c)(k \<mapsto> v)"
  by (induction c) (auto simp: fun_eq_iff)

text \<open>
  Claim C7. When \<open>get_delta_column_group\<close> misses the cache and the load from the
  store succeeds, the loaded list is cached under the key afterwards, whatever it holds
  and so also when it is empty; the store was queried once, for the unbounded version.
  A following \<open>get_cached_delta_column_group\<close> or \<open>get_delta_column_group\<close>
  for the key, for any version and against any store, is a hit computed from that list
  and leaves the state, the trace of store calls included, as it was.
\<close>

theorem get_delta_column_group_caches_loaded_list:
  assumes "map_of (delta_column_group_cache um) tsid = None"
    and "get_delta_column_group_in_meta meta tsid INT64_MAX = (st, new_dcgs)"
    and "ok st"
    and "um' = snd (snd (get_delta_column_group meta tsid version dcgs um))"
  shows "map_of (delta_column_group_cache um') tsid = Some new_dcgs
       \<and> external_calls um' = external_calls um @ [GetDeltaColumnGroup tsid INT64_MAX]
       \<and> get_cached_delta_column_group tsid version2 dcgs2 um'
           = (True, search_delta_column_groups_by_version new_dcgs version2 dcgs2, um')
       \<and> get_delta_column_group meta2 tsid version2 dcgs2 um'
           = (Status_OK, search_delta_column_groups_by_version new_dcgs version2 dcgs2, um')"
proof -
  have cached: "map_of (delta_column_group_cache um') tsid = Some new_dcgs"
    using assms
    by (simp add: get_delta_column_group_def load_delta_column_group_def
        get_delta_column_group_fill_def om_insert_def map_of_om_assign)
  have calls: "external_calls um' = external_calls um @ [GetDeltaColumnGroup tsid INT64_MAX]"
    using assms
    by (simp add: get_delta_column_group_def load_delta_column_group_def
        get_delta_column_group_fill_def om_insert_def)
  from cached calls show ?thesis
    by (simp add: get_cached_delta_column_group_def get_delta_column_group_def)
qed

theorem get_delta_column_group_caches_loaded_list_witness:
  "map_of (delta_column_group_cache um_cold) tsid_7_3 = None
   \<and> get_delta_column_group_in_meta example_store tsid_7_3 INT64_MAX = (Status_OK, [])
   \<and> ok Status_OK
   \<and> map_of (delta_column_group_cache
        (snd (snd (get_delta_column_group example_store tsid_7_3 5 [] um_cold)))) tsid_7_3 = Some []
   \<and> fst (get_cached_delta_column_group tsid_7_3 5 []
        (snd (snd (get_delta_column_group example_store tsid_7_3 5 [] um_cold)))) = True"
proof -
  have miss: "map_of (delta_column_group_cache um_cold) tsid_7_3 = None"
    by (simp add: um_cold_def)
  have loaded: "get_delta_column_group_in_meta example_store tsid_7_3 INT64_MAX = (Status_OK, [])"
    by (simp add: example_store_def)
  have fine: "ok Status_OK"
    by (simp add: ok_def Status_OK_def)
  from get_delta_column_group_caches_loaded_list [OF miss loaded fine refl, of 5 "[]" 5 "[]" example_store]
    miss loaded fine
  show ?thesis by simp
qed

text \<open>
  Claim C10. \<open>get_cached_delta_column_group\<close> takes no store and returns the state
  it was given, trace of store calls included. On a hit it returns true and adds to the
  caller's list the cached deltas whose version is at most the requested one; on a miss
  it returns false and the caller's list is as it was.
\<close>

theorem get_cached_delta_column_group_read_only:
  "snd (snd (get_cached_delta_column_group tsid version dcgs um)) = um
   \<and> (case map_of (delta_column_group_cache um) tsid of
        Some cached \<Rightarrow>
          fst (get_cached_delta_column_group tsid version dcgs um) = True
          \<and> fst (snd (get_cached_delta_column_group tsid version dcgs um))
              = dcgs @ filter (\<lambda>dcg. dcg_version dcg \<le> version) cached
      | None \<Rightarrow>
          fst (get_cached_delta_column_group tsid version dcgs um) = False
          \<and> fst (snd (get_cached_delta_column_group tsid version dcgs um)) = dcgs)"
  by (simp add: get_cached_delta_column_group_def search_delta_column_groups_by_version_def
      split: option.splits)

theorem get_cached_delta_column_group_read_only_witness:
  "get_cached_delta_column_group (TabletSegmentId 7 3) 4 [] um_dcg = (True, [dcg_v1], um_dcg)
   \<and> get_cached_delta_column_group (TabletSegmentId 9 9) 4 [dcg_v2] um_dcg = (False, [dcg_v2], um_dcg)"
proof -
  have hit: "map_of (delta_column_group_cache um_dcg) (TabletSegmentId 7 3) = Some [dcg_v5, dcg_v1]"
    and miss: "map_of (delta_column_group_cache um_dcg) (TabletSegmentId 9 9) = None"
    by (simp_all add: um_dcg_def)
  have versions: "filter (\<lambda>dcg. dcg_version dcg \<le> 4) [dcg_v5, dcg_v1] = [dcg_v1]"
    by (simp add: dcg_v1_def dcg_v5_def)
  from get_cached_delta_column_group_read_only [of "TabletSegmentId 7 3" 4 "[]" um_dcg]
    get_cached_delta_column_group_read_only [of "TabletSegmentId 9 9" 4 "[dcg_v2]" um_dcg]
    hit miss versions
  show ?thesis
    by (simp add: prod_eq_iff)
qed

subsection \<open>Garbage collection\<close>



























section \<open>Properties of the ingestion lifecycle\<close>

lemma dc_find_dc_remove: "dc_find key (dc_remove key c) = None"
  by (auto simp: dc_find_def dc_remove_def map_of_eq_None_iff)

lemma load_state_entry_failed:
  "\<not> ok (load_status env) \<Longrightarrow> dc_find key (load_state_entry env expire_ms key c) = None"
  by (simp add: load_state_entry_def Let_def dc_find_dc_remove)

lemma on_rowset_finished_load_runs:
  assumes "rs_has_data_files r" and "t_tablet_state t \<noteq> TABLET_NOTREADY"
    and "rs_is_partial_update r \<longrightarrow> ok (pindex_load_task_status env)"
  shows "on_rowset_finished env t r um =
     (let um1 = (if rs_is_column_mode_partial_update r
                 then um\<lparr>update_column_state_cache :=
                        load_state_entry env (cache_expire_ms um) (state_cache_key t r)
                          (update_column_state_cache um)\<rparr>
                 else um\<lparr>update_state_cache :=
                        load_state_entry env (cache_expire_ms um) (state_cache_key t r)
                          (update_state_cache um)\<rparr>);
          st = (if fail_point_triggered env
                then Status MemLimitExceeded ''on_rowset_finished failed''
                else load_status env)
      in if is_mem_limit_exceeded st \<or> is_time_out st then (Status_OK, um1) else (st, um1))"
proof (cases "rs_is_partial_update r")
  case True
  with assms have "ok (pindex_load_task_status env)" by simp
  with assms(1,2) show ?thesis
    by (simp add: on_rowset_finished_def Let_def)
next
  case False
  with assms(1,2) show ?thesis
    by (simp add: on_rowset_finished_def Let_def)
qed

text \<open>
  Claim C4. Let \<open>on_rowset_finished\<close> reach the state load (the rowset has data
  files, the tablet is ready, and for a partial update the index preload succeeded) and
  let the load fail. Then the cache the rowset's kind selects holds no entry for the
  (tablet, rowset) pair afterwards, and a later \<open>TEST_update_state_exist\<close> for the
  pair returns false and changes nothing. When the failure is \<open>MemLimitExceeded\<close>
  or \<open>TimeOut\<close> the call returns OK; any other failure is returned to the caller,
  the fail point \<^verbatim>\<open>on_rowset_finished_failed_due_to_mem\<close> not being triggered.
\<close>

theorem on_rowset_finished_soft_failure:
  assumes "rs_has_data_files r" and "t_tablet_state t \<noteq> TABLET_NOTREADY"
    and "rs_is_partial_update r \<longrightarrow> ok (pindex_load_task_status env)"
    and "\<not> ok (load_status env)"
    and "um' = snd (on_rowset_finished env t r um)"
  shows "dc_find (state_cache_key t r)
           (if rs_is_column_mode_partial_update r then update_column_state_cache um'
            else update_state_cache um') = None
       \<and> TEST_update_state_exist now_ms t r um' = (False, um')
       \<and> (is_mem_limit_exceeded (load_status env) \<or> is_time_out (load_status env) \<longrightarrow>
            fst (on_rowset_finished env t r um) = Status_OK)
       \<and> (\<not> is_mem_limit_exceeded (load_status env) \<and> \<not> is_time_out (load_status env)
            \<and> \<not> fail_point_triggered env \<longrightarrow>
            fst (on_rowset_finished env t r um) = load_status env)"
proof -
  note runs = on_rowset_finished_load_runs [OF assms(1,2,3), of um]
  have gone: "dc_find (state_cache_key t r)
           (if rs_is_column_mode_partial_update r then update_column_state_cache um'
            else update_state_cache um') = None"
    unfolding assms(5) runs Let_def using assms(4) by (simp add: load_state_entry_failed)
  then have absent: "TEST_update_state_exist now_ms t r um' = (False, um')"
    by (simp add: TEST_update_state_exist_def Let_def dc_get_def split: if_splits)
  have soft: "is_mem_limit_exceeded (load_status env) \<or> is_time_out (load_status env) \<longrightarrow>
            fst (on_rowset_finished env t r um) = Status_OK"
    unfolding runs Let_def by (simp add: is_mem_limit_exceeded_def)
  have hard: "\<not> is_mem_limit_exceeded (load_status env) \<and> \<not> is_time_out (load_status env)
            \<and> \<not> fail_point_triggered env \<longrightarrow>
            fst (on_rowset_finished env t r um) = load_status env"
    unfolding runs Let_def by simp
  from gone absent soft hard show ?thesis by blast
qed

theorem on_rowset_finished_soft_failure_witness:
  "rs_has_data_files rowset_a \<and> t_tablet_state tablet_7 \<noteq> TABLET_NOTREADY
   \<and> \<not> rs_is_partial_update rowset_a
   \<and> \<not> ok (load_status env_mem_limit) \<and> is_mem_limit_exceeded (load_status env_mem_limit)
   \<and> fst (on_rowset_finished env_mem_limit tablet_7 rowset_a um_cold) = Status_OK
   \<and> fst (TEST_update_state_exist 2000 tablet_7 rowset_a
        (snd (on_rowset_finished env_mem_limit tablet_7 rowset_a um_cold))) = False
   \<and> \<not> ok (load_status env_corruption) \<and> \<not> is_mem_limit_exceeded (load_status env_corruption)
   \<and> \<not> is_time_out (load_status env_corruption) \<and> \<not> fail_point_triggered env_corruption
   \<and> fst (on_rowset_finished env_corruption tablet_7 rowset_a um_cold)
       = Status Corruption ''bad segment footer''"
proof -
  have r: "rs_has_data_files rowset_a" "\<not> rs_is_partial_update rowset_a"
    by (simp_all add: rowset_a_def)
  have t: "t_tablet_state tablet_7 \<noteq> TABLET_NOTREADY"
    by (simp add: tablet_7_def)
  have soft: "\<not> ok (load_status env_mem_limit)" "is_mem_limit_exceeded (load_status env_mem_limit)"
    by (simp_all add: env_mem_limit_def ok_def is_mem_limit_exceeded_def)
  have hard: "\<not> ok (load_status env_corruption)" "\<not> is_mem_limit_exceeded (load_status env_corruption)"
    "\<not> is_time_out (load_status env_corruption)" "\<not> fail_point_triggered env_corruption"
    "load_status env_corruption = Status Corruption ''bad segment footer''"
    by (simp_all add: env_corruption_def env_mem_limit_def ok_def is_mem_limit_exceeded_def is_time_out_def)
  have pre: "rs_is_partial_update rowset_a \<longrightarrow> ok (pindex_load_task_status env_mem_limit)"
    "rs_is_partial_update rowset_a \<longrightarrow> ok (pindex_load_task_status env_corruption)"
    using r by simp_all
  from on_rowset_finished_soft_failure [OF r(1) t pre(1) soft(1) refl, of um_cold 2000]
    on_rowset_finished_soft_failure [OF r(1) t pre(2) hard(1) refl, of um_cold 2000]
    r t soft hard
  show ?thesis by simp
qed

section \<open>Properties of eviction\<close>

lemma dc_size_dc_remove: "dc_size (dc_remove key c) \<le> dc_size c"
proof -
  have "sum_list (map f (filter P xs)) \<le> sum_list (map f xs)" for f :: "'x \<Rightarrow> nat" and P xs
    by (induction xs) auto
  then show ?thesis
    by (simp add: dc_size_def dc_remove_def)
qed

lemma dc_size_dc_evict_loop: "dc_size (dc_evict_loop keys target c) \<le> dc_size c"
proof (induction keys arbitrary: c)
  case Nil
  then show ?case by simp
next
  case (Cons key keys)
  let ?c' = "case dc_find key c of
               Some e \<Rightarrow> if ce_ref e = 0 then dc_remove key c else c
             | None \<Rightarrow> c"
  have "dc_size ?c' \<le> dc_size c"
    by (simp add: dc_size_dc_remove split: option.splits)
  with Cons.IH [of ?c'] show ?case
    by (simp del: dc_evict_loop.simps add: dc_evict_loop.simps(2) [of key keys target c])
qed

lemma dc_size_dc_try_evict: "dc_size (dc_try_evict target c) \<le> dc_size c"
  by (simp add: dc_try_evict_def dc_size_dc_evict_loop)


lemma sint_int64_of_nat: "n < 2 ^ 63 \<Longrightarrow> sint (word_of_nat n :: 64 word) = int n"
  by (simp add: signed_of_nat signed_take_bit_int_eq_self)

lemma unat_int64_of_nat: "n < 2 ^ 63 \<Longrightarrow> unat (word_of_nat n :: 64 word) = n"
  by (simp add: unat_of_nat take_bit_nat_eq_self)

lemma int64_div_of_nat:
  assumes "n < 2 ^ 63"
  shows "int64_div (word_of_nat n) 100 = word_of_nat (n div 100)"
    and "int64_div (word_of_nat n) 10 = word_of_nat (n div 10)"
proof -
  have "int n sdiv 100 = int (n div 100)" "int n sdiv 10 = int (n div 10)"
    by (cases "n = 0"; simp add: signed_divide_int_def zdiv_int)+
  with assms show "int64_div (word_of_nat n) 100 = word_of_nat (n div 100)"
    and "int64_div (word_of_nat n) 10 = word_of_nat (n div 10)"
    by (simp_all add: int64_div_def sint_int64_of_nat)
qed

lemma int64_less_of_nat:
  "a < 2 ^ 63 \<Longrightarrow> b < 2 ^ 63 \<Longrightarrow> ((word_of_nat a :: 64 word) <s word_of_nat b) = (a < b)"
  by (simp add: word_sless_alt sint_int64_of_nat)

lemma int64_max_of_nat:
  "a < 2 ^ 63 \<Longrightarrow> b < 2 ^ 63 \<Longrightarrow> int64_max (word_of_nat a) (word_of_nat b) = word_of_nat (max a b)"
  by (simp add: int64_max_def int64_less_of_nat max_def)

lemma size_t_less_of_nat:
  "a < 2 ^ 63 \<Longrightarrow> b < 2 ^ 63 \<Longrightarrow> ((word_of_nat a :: 64 word) < word_of_nat b) = (a < b)"
  by (simp add: of_nat_word_less_iff take_bit_nat_eq_self)

text \<open>
  Claim C5. Let the percentages be natural numbers, and let neither
  \<^verbatim>\<open>capacity * level\<close> nor \<^verbatim>\<open>size * 9\<close> overflow \<^verbatim>\<open>int64_t\<close>. With the urgent
  watermark \<open>capacity * urgent_pct div 100\<close> and the high watermark
  \<open>capacity * high_pct div 100\<close>: when the size of the index cache exceeds the urgent
  watermark, \<open>evict_cache\<close> runs \<open>try_evict\<close> down to it; it measures the size
  again and, when that exceeds the high watermark, runs \<open>try_evict\<close> down to the
  larger of nine tenths of that size and the high watermark; and it sets
  \<open>keep_pindex_bf\<close> to false exactly when the size of the resulting cache exceeds
  the high watermark. Nothing else of the state changes.
\<close>

theorem evict_cache_two_stage:
  fixes urgent_pct high_pct :: nat
  assumes "dc_capacity (index_cache um) * urgent_pct < 2 ^ 63"
    and "dc_capacity (index_cache um) * high_pct < 2 ^ 63"
    and "dc_size (index_cache um) * 9 < 2 ^ 63"
    and "memory_urgent = dc_capacity (index_cache um) * urgent_pct div 100"
    and "memory_high = dc_capacity (index_cache um) * high_pct div 100"
    and "c1 = (if memory_urgent < dc_size (index_cache um)
               then dc_try_evict memory_urgent (index_cache um) else index_cache um)"
    and "c2 = (if memory_high < dc_size c1
               then dc_try_evict (max (dc_size c1 * 9 div 10) memory_high) c1 else c1)"
  shows "evict_cache (word_of_nat urgent_pct) (word_of_nat high_pct) um
           = um\<lparr>index_cache := c2, keep_pindex_bf := \<not> memory_high < dc_size c2\<rparr>"
proof -
  let ?c = "index_cache um"
  have U: "memory_urgent < 2 ^ 63" and H: "memory_high < 2 ^ 63"
    using assms(1,2,4,5) by (simp_all add: le_less_trans [OF div_le_dividend])
  have wU: "int64_div (word_of_nat (dc_capacity ?c) * word_of_nat urgent_pct) 100
              = (word_of_nat memory_urgent :: 64 word)"
    using int64_div_of_nat(1) [OF assms(1)] assms(4) by simp
  have wH: "int64_div (word_of_nat (dc_capacity ?c) * word_of_nat high_pct) 100
              = (word_of_nat memory_high :: 64 word)"
    using int64_div_of_nat(1) [OF assms(2)] assms(5) by simp
  have s0: "dc_size ?c < 2 ^ 63"
    using assms(3) by simp
  have c1_le: "dc_size c1 \<le> dc_size ?c"
    using assms(6) by (simp add: dc_size_dc_try_evict)
  then have s1: "dc_size c1 < 2 ^ 63" and s19: "dc_size c1 * 9 < 2 ^ 63"
    using assms(3) by simp_all
  have "dc_size c2 \<le> dc_size c1"
    using assms(7) by (simp add: dc_size_dc_try_evict)
  with s1 have s2: "dc_size c2 < 2 ^ 63"
    by simp
  have stage1: "(if (word_of_nat memory_urgent :: 64 word) <s word_of_nat (dc_size ?c)
                 then dc_try_evict (unat (word_of_nat memory_urgent :: 64 word)) ?c else ?c) = c1"
    using U s0 assms(6) by (simp add: int64_less_of_nat unat_int64_of_nat)
  have target: "int64_max (int64_div (word_of_nat (dc_size c1) * 9) 10) (word_of_nat memory_high)
                  = (word_of_nat (max (dc_size c1 * 9 div 10) memory_high) :: 64 word)"
  proof -
    have "(word_of_nat (dc_size c1) * 9 :: 64 word) = word_of_nat (dc_size c1 * 9)"
      by simp
    moreover have "dc_size c1 * 9 div 10 < 2 ^ 63"
      using s19 by (simp add: le_less_trans [OF div_le_dividend])
    ultimately show ?thesis
      using int64_div_of_nat(2) [OF s19] H by (simp add: int64_max_of_nat)
  qed
  have target_small: "max (dc_size c1 * 9 div 10) memory_high < 2 ^ 63"
    using s19 H by (simp add: le_less_trans [OF div_le_dividend])
  have stage2: "(if (word_of_nat memory_high :: 64 word) <s word_of_nat (dc_size c1)
                 then dc_try_evict
                        (unat (int64_max (int64_div (word_of_nat (dc_size c1) * 9) 10)
                                 (word_of_nat memory_high))) c1
                 else c1) = c2"
    using H s1 assms(7) target_small
    by (simp add: int64_less_of_nat target unat_int64_of_nat)
  have flag: "((word_of_nat memory_high :: 64 word) < word_of_nat (dc_size c2))
                = (memory_high < dc_size c2)"
    using H s2 by (simp add: size_t_less_of_nat)
  show ?thesis
    unfolding evict_cache_def Let_def wU wH stage1 stage2 flag by simp
qed

theorem evict_cache_two_stage_witness:
  "dc_capacity (index_cache um_index) * 70 < 2 ^ 63
   \<and> dc_capacity (index_cache um_index) * 50 < 2 ^ 63
   \<and> dc_size (index_cache um_index) * 9 < 2 ^ 63
   \<and> evict_cache 70 50 um_index
       = um_index\<lparr>index_cache :=
           \<lparr>dc_entries = [(1, \<lparr>ce_value = (), ce_ref = 2, ce_expire_ms = 5000, ce_size = 500\<rparr>)],
            dc_capacity = 1000, dc_ttl_ms = 360000\<rparr>,
          keep_pindex_bf := True\<rparr>"
proof -
  have cap: "dc_capacity (index_cache um_index) = 1000"
    and size0: "dc_size (index_cache um_index) = 950"
    by (simp_all add: um_index_def um_cold_def dc_size_def)
  have h1: "dc_capacity (index_cache um_index) * 70 < 2 ^ 63"
    and h2: "dc_capacity (index_cache um_index) * 50 < 2 ^ 63"
    and h3: "dc_size (index_cache um_index) * 9 < 2 ^ 63"
    by (simp_all add: cap size0)
  let ?e1 = "(1, \<lparr>ce_value = (), ce_ref = 2, ce_expire_ms = 5000, ce_size = 500\<rparr>) :: int \<times> unit cache_entry"
  let ?e3 = "(3, \<lparr>ce_value = (), ce_ref = 0, ce_expire_ms = 5000, ce_size = 150\<rparr>) :: int \<times> unit cache_entry"
  let ?c1 = "\<lparr>dc_entries = [?e1, ?e3], dc_capacity = 1000, dc_ttl_ms = 360000\<rparr>"
  let ?c2 = "\<lparr>dc_entries = [?e1], dc_capacity = 1000, dc_ttl_ms = 360000\<rparr>"
  have urgent: "(700::nat) = dc_capacity (index_cache um_index) * 70 div 100"
    and high: "(500::nat) = dc_capacity (index_cache um_index) * 50 div 100"
    by (simp_all add: cap)
  have "dc_try_evict 700 (index_cache um_index) = ?c1"
    by (simp add: um_index_def um_cold_def dc_try_evict_def dc_size_def dc_find_def dc_remove_def)
  then have stage1: "?c1 = (if 700 < dc_size (index_cache um_index)
                           then dc_try_evict 700 (index_cache um_index) else index_cache um_index)"
    by (simp add: size0)
  have size1: "dc_size ?c1 = 650"
    by (simp add: dc_size_def)
  have "dc_try_evict 585 ?c1 = ?c2"
    by (simp add: dc_try_evict_def dc_size_def dc_find_def dc_remove_def)
  then have stage2: "?c2 = (if 500 < dc_size ?c1
                           then dc_try_evict (max (dc_size ?c1 * 9 div 10) 500) ?c1 else ?c1)"
    by (simp add: size1)
  have size2: "dc_size ?c2 = 500"
    by (simp add: dc_size_def)
  from evict_cache_two_stage [OF h1 h2 h3 urgent high stage1 stage2] h1 h2 h3
  show ?thesis
    by (simp add: size2)
qed

section \<open>Memory accounting of the keyed caches\<close>

subsection \<open>The delete-vector cache\<close>

text \<open>
  Publishing a vector under a key changes the memory usage of the cache by the usage of
  the new vector less that of the one it replaces, which is what the source consumes and
  releases; so \<open>set_cached_del_vec\<close>, \<open>get_del_vec\<close> and
  \<open>get_latest_del_vec\<close> keep the tracker consistent.
\<close>

lemma del_vec_usage_publish:
  assumes "finite (dom c)"
  shows "del_vec_cache_memory_usage (c(k \<mapsto> v))
           + (case c k of None \<Rightarrow> 0 | Some old \<Rightarrow> dv_memory_usage old)
         = del_vec_cache_memory_usage c + dv_memory_usage v"
proof -
  have rest: "(\<Sum>x \<in> dom c - {k}. dv_memory_usage (the ((c(k \<mapsto> v)) x)))
                = (\<Sum>x \<in> dom c - {k}. dv_memory_usage (the (c x)))"
    by (rule sum.cong) auto
  have keys: "dom (c(k \<mapsto> v)) = insert k (dom c - {k})"
    by auto
  have "(\<Sum>x \<in> insert k (dom c - {k}). dv_memory_usage (the ((c(k \<mapsto> v)) x)))
          = dv_memory_usage (the ((c(k \<mapsto> v)) k))
            + (\<Sum>x \<in> dom c - {k}. dv_memory_usage (the ((c(k \<mapsto> v)) x)))"
    by (rule sum.insert) (use assms in auto)
  with rest have new: "del_vec_cache_memory_usage (c(k \<mapsto> v))
      = dv_memory_usage v + (\<Sum>x \<in> dom c - {k}. dv_memory_usage (the (c x)))"
    unfolding del_vec_cache_memory_usage_def keys by simp
  show ?thesis
  proof (cases "c k")
    case None
    then have "dom c - {k} = dom c" by auto
    with new None show ?thesis
      by (simp add: del_vec_cache_memory_usage_def)
  next
    case (Some old)
    then have "k \<in> dom c" by auto
    with assms Some have "del_vec_cache_memory_usage c
        = dv_memory_usage old + (\<Sum>x \<in> dom c - {k}. dv_memory_usage (the (c x)))"
      by (simp add: del_vec_cache_memory_usage_def sum.remove)
    with new Some show ?thesis by simp
  qed
qed

lemma del_vec_usage_cached_le:
  assumes "finite (dom c)" and "c k = Some old"
  shows "dv_memory_usage old \<le> del_vec_cache_memory_usage c"
proof -
  from assms(2) have "k \<in> dom c" by auto
  with assms have "del_vec_cache_memory_usage c
      = dv_memory_usage old + (\<Sum>x \<in> dom c - {k}. dv_memory_usage (the (c x)))"
    by (simp add: del_vec_cache_memory_usage_def sum.remove)
  then show ?thesis by simp
qed

lemma del_vec_publish_consistent:
  assumes "del_vec_tracker_consistent um"
  shows "del_vec_tracker_consistent
           (um\<lparr>del_vec_cache := (del_vec_cache um)(tsid \<mapsto> delvec),
               del_vec_cache_mem_tracker :=
                 (case del_vec_cache um tsid of
                    None \<Rightarrow> consume (dv_memory_usage delvec) (del_vec_cache_mem_tracker um)
                  | Some cached \<Rightarrow>
                      consume (dv_memory_usage delvec)
                        (release (dv_memory_usage cached) (del_vec_cache_mem_tracker um)))\<rparr>)"
proof -
  from assms have finite: "finite (dom (del_vec_cache um))"
    and tracked: "del_vec_cache_mem_tracker um = del_vec_cache_memory_usage (del_vec_cache um)"
    by (simp_all add: del_vec_tracker_consistent_def)
  show ?thesis
  proof (cases "del_vec_cache um tsid")
    case None
    with del_vec_usage_publish [OF finite, of tsid delvec] finite tracked show ?thesis
      by (simp add: del_vec_tracker_consistent_def consume_def)
  next
    case (Some cached)
    with del_vec_usage_publish [OF finite, of tsid delvec] del_vec_usage_cached_le [OF finite Some]
    have "del_vec_cache_memory_usage (del_vec_cache um) - dv_memory_usage cached
            + dv_memory_usage delvec
          = del_vec_cache_memory_usage ((del_vec_cache um)(tsid \<mapsto> delvec))"
      by simp
    with Some finite tracked show ?thesis
      by (simp add: del_vec_tracker_consistent_def consume_def release_def)
  qed
qed

lemma del_vec_tracker_consistent_preserved:
  assumes "del_vec_tracker_consistent um"
  shows "del_vec_tracker_consistent (snd (set_cached_del_vec tsid delvec um))
       \<and> del_vec_tracker_consistent (snd (snd (get_del_vec meta tsid version um)))
       \<and> del_vec_tracker_consistent (snd (snd (get_latest_del_vec meta tsid um)))"
proof -
  have called: "del_vec_tracker_consistent (um\<lparr>external_calls := calls\<rparr>)" for calls
    using assms by (simp add: del_vec_tracker_consistent_def)
  have set: "del_vec_tracker_consistent (snd (set_cached_del_vec tsid delvec um))"
    using assms del_vec_publish_consistent [OF assms, where tsid = tsid and delvec = delvec]
    by (simp add: set_cached_del_vec_def split: option.splits)
  have fill: "del_vec_tracker_consistent (get_del_vec_fill tsid dv latest um')"
    if "del_vec_tracker_consistent um'" for dv latest um'
    using that del_vec_publish_consistent [OF that, where tsid = tsid and delvec = dv]
    by (simp add: get_del_vec_fill_def split: option.splits)
  have get: "del_vec_tracker_consistent (snd (snd (get_del_vec meta tsid version um)))"
    using assms called fill [OF called]
    by (simp add: get_del_vec_def get_del_vec_in_meta_def split: option.splits prod.splits)
  have latest: "del_vec_tracker_consistent (snd (snd (get_latest_del_vec meta tsid um)))"
  proof (cases "del_vec_cache um tsid")
    case None
    with called
      del_vec_publish_consistent [OF called,
        where calls1 = "external_calls um @ [GetDelVector tsid INT64_MAX]" and tsid = tsid
          and delvec = "fst (snd (get_del_vector meta tsid INT64_MAX))"]
    show ?thesis
      by (auto simp: get_latest_del_vec_def get_del_vec_in_meta_def split: prod.splits)
  next
    case (Some cached)
    with assms show ?thesis
      by (simp add: get_latest_del_vec_def)
  qed
  from set get latest show ?thesis by simp
qed

subsection \<open>The delta-column-group cache\<close>

text \<open>
  Assigning, inserting and erasing nodes keeps the key order, and changes the memory usage
  by what the source consumes and releases in the same block; so the lookups, the
  publishing functions and the two invalidation functions keep the tracker consistent.
\<close>

lemma tsid_less_total: "\<not> tsid_less k a \<Longrightarrow> k \<noteq> a \<Longrightarrow> tsid_less a k"
  by (cases k; cases a) (auto simp: tsid_less_def)

lemma tsid_less_irrefl: "\<not> tsid_less k k"
  by (simp add: tsid_less_def)

lemma tsid_less_trans: "tsid_less a b \<Longrightarrow> tsid_less b c \<Longrightarrow> tsid_less a c"
  by (auto simp: tsid_less_def)

lemma om_assign_nodes: "set (om_assign k v c) \<subseteq> insert (k, v) (set c)"
  by (induction c) auto

lemma om_assign_ordered:
  "sorted_wrt tsid_less (map fst c) \<Longrightarrow> sorted_wrt tsid_less (map fst (om_assign k v c))"
proof (induction c)
  case Nil
  then show ?case by simp
next
  case (Cons e es)
  show ?case
  proof (cases "fst e = k")
    case True
    with Cons.prems show ?thesis by simp
  next
    case False
    show ?thesis
    proof (cases "tsid_less k (fst e)")
      case True
      with Cons.prems have "\<forall>a \<in> set (map fst es). tsid_less k a"
        by (auto intro: tsid_less_trans)
      with True False Cons.prems show ?thesis by simp
    next
      case smaller: False
      with False have "tsid_less (fst e) k"
        by (simp add: tsid_less_total)
      with Cons.prems have "\<forall>a \<in> insert (k, v) (set es). tsid_less (fst e) (fst a)"
        by simp
      with om_assign_nodes [of k v es]
      have "\<forall>a \<in> set (om_assign k v es). tsid_less (fst e) (fst a)"
        by blast
      with smaller False Cons show ?thesis by simp
    qed
  qed
qed

lemma sorted_keys_above:
  "sorted_wrt tsid_less (map fst (e # es)) \<Longrightarrow> tsid_less k (fst e) \<Longrightarrow> map_of (e # es) k = None"
proof -
  assume sorted: "sorted_wrt tsid_less (map fst (e # es))" and below: "tsid_less k (fst e)"
  then have "\<forall>a \<in> set (map fst (e # es)). tsid_less k a"
    by (auto intro: tsid_less_trans)
  then have "k \<notin> set (map fst (e # es))"
    using tsid_less_irrefl by blast
  then show ?thesis
    by (simp only: map_of_eq_None_iff [symmetric] set_map)
qed

lemma usage_cached_le:
  "map_of c k = Some old \<Longrightarrow> delta_column_group_list_memory_usage old \<le> dcg_cache_memory_usage c"
  by (induction c) (auto simp: dcg_cache_memory_usage_def split: if_splits)

lemma usage_om_assign_new:
  "map_of c k = None \<Longrightarrow>
     dcg_cache_memory_usage (om_assign k v c)
       = dcg_cache_memory_usage c + delta_column_group_list_memory_usage v"
  by (induction c) (auto simp: dcg_cache_memory_usage_def split: if_splits)

lemma usage_om_assign_old:
  "sorted_wrt tsid_less (map fst c) \<Longrightarrow> map_of c k = Some old \<Longrightarrow>
     dcg_cache_memory_usage (om_assign k v c) + delta_column_group_list_memory_usage old
       = dcg_cache_memory_usage c + delta_column_group_list_memory_usage v"
proof (induction c)
  case Nil
  then show ?case by simp
next
  case (Cons e es)
  show ?case
  proof (cases "fst e = k")
    case True
    with Cons.prems(2) have "snd e = old" by (cases e) simp
    with True show ?thesis by (simp add: dcg_cache_memory_usage_def)
  next
    case False
    with sorted_keys_above [OF Cons.prems(1), of k] Cons.prems(2)
    have not_below: "\<not> tsid_less k (fst e)" by auto
    from False Cons.prems(2) have "map_of es k = Some old" by (cases e) simp
    with Cons.IH Cons.prems(1)
    have "dcg_cache_memory_usage (om_assign k v es) + delta_column_group_list_memory_usage old
            = dcg_cache_memory_usage es + delta_column_group_list_memory_usage v"
      by simp
    with False not_below show ?thesis
      by (simp add: dcg_cache_memory_usage_def)
  qed
qed

lemma usage_om_erase:
  "sorted_wrt tsid_less (map fst c) \<Longrightarrow> map_of c k = Some old \<Longrightarrow>
     dcg_cache_memory_usage (om_erase k c) + delta_column_group_list_memory_usage old
       = dcg_cache_memory_usage c"
proof (induction c)
  case Nil
  then show ?case by simp
next
  case (Cons e es)
  show ?case
  proof (cases "fst e = k")
    case True
    with Cons.prems(1) have "\<forall>a \<in> set es. fst a \<noteq> k"
      using tsid_less_irrefl by auto
    then have "filter (\<lambda>a. fst a \<noteq> k) es = es"
      by (simp add: filter_id_conv)
    moreover from True Cons.prems(2) have "snd e = old" by (cases e) simp
    ultimately show ?thesis
      using True by (simp add: om_erase_def dcg_cache_memory_usage_def)
  next
    case False
    with Cons.prems(2) have "map_of es k = Some old" by (cases e) simp
    with Cons.IH Cons.prems(1)
    have "dcg_cache_memory_usage (om_erase k es) + delta_column_group_list_memory_usage old
            = dcg_cache_memory_usage es"
      by simp
    with False show ?thesis
      by (simp add: om_erase_def dcg_cache_memory_usage_def)
  qed
qed

lemma om_erase_ordered:
  "sorted_wrt tsid_less (map fst c) \<Longrightarrow> sorted_wrt tsid_less (map fst (om_erase k c))"
  by (induction c) (auto simp: om_erase_def)

lemma erase_tablet_nodes_kept:
  "fst (erase_tablet_nodes tablet c tracker) = filter (\<lambda>e. tablet_id (fst e) \<noteq> tablet) c"
  by (induction c arbitrary: tracker) (simp_all add: split_beta)

lemma erase_tablet_nodes_tracker:
  "snd (erase_tablet_nodes tablet c (dcg_cache_memory_usage c + extra))
     = dcg_cache_memory_usage (filter (\<lambda>e. tablet_id (fst e) \<noteq> tablet) c) + extra"
proof (induction c arbitrary: extra)
  case Nil
  then show ?case by (simp add: dcg_cache_memory_usage_def)
next
  case (Cons e es)
  show ?case
  proof (cases "tablet_id (fst e) = tablet")
    case True
    have "release (delta_column_group_list_memory_usage (snd e))
            (dcg_cache_memory_usage (e # es) + extra) = dcg_cache_memory_usage es + extra"
      by (simp add: dcg_cache_memory_usage_def release_def)
    with True Cons.IH [of extra] show ?thesis
      by (simp add: dcg_cache_memory_usage_def)
  next
    case False
    with Cons.IH [of "delta_column_group_list_memory_usage (snd e) + extra"] show ?thesis
      by (simp add: split_beta dcg_cache_memory_usage_def ac_simps)
  qed
qed

lemma dcg_fill_consistent:
  assumes "dcg_tracker_consistent um"
  shows "dcg_tracker_consistent (get_delta_column_group_fill tsid new_dcgs um)"
    and "dcg_tracker_consistent (set_cached_empty_delta_column_group_fill tsid new_dcgs um)"
    and "dcg_tracker_consistent (set_cached_delta_column_group_replace tsid new_dcgs um)"
proof -
  from assms have ordered: "sorted_wrt tsid_less (map fst (delta_column_group_cache um))"
    and tracked: "delta_column_group_cache_mem_tracker um
                    = dcg_cache_memory_usage (delta_column_group_cache um)"
    by (simp_all add: dcg_tracker_consistent_def dcg_cache_ordered_def)
  show "dcg_tracker_consistent (get_delta_column_group_fill tsid new_dcgs um)"
    using assms ordered tracked
    by (cases "map_of (delta_column_group_cache um) tsid")
      (simp_all add: get_delta_column_group_fill_def om_insert_def dcg_tracker_consistent_def
        dcg_cache_ordered_def om_assign_ordered usage_om_assign_new consume_def)
  show "dcg_tracker_consistent (set_cached_empty_delta_column_group_fill tsid new_dcgs um)"
    using assms ordered tracked
    by (cases "map_of (delta_column_group_cache um) tsid")
      (simp_all add: set_cached_empty_delta_column_group_fill_def dcg_tracker_consistent_def
        dcg_cache_ordered_def om_assign_ordered usage_om_assign_new
        delta_column_group_list_memory_usage_def)
  show "dcg_tracker_consistent (set_cached_delta_column_group_replace tsid new_dcgs um)"
  proof (cases "map_of (delta_column_group_cache um) tsid")
    case None
    with ordered tracked show ?thesis
      by (simp add: set_cached_delta_column_group_replace_def dcg_tracker_consistent_def
          dcg_cache_ordered_def om_assign_ordered usage_om_assign_new consume_def)
  next
    case (Some cached)
    from usage_om_assign_old [OF ordered Some, of new_dcgs] usage_cached_le [OF Some]
    have "dcg_cache_memory_usage (delta_column_group_cache um)
            - delta_column_group_list_memory_usage cached
            + delta_column_group_list_memory_usage new_dcgs
          = dcg_cache_memory_usage (om_assign tsid new_dcgs (delta_column_group_cache um))"
      by linarith
    with Some ordered tracked show ?thesis
      by (simp add: set_cached_delta_column_group_replace_def dcg_tracker_consistent_def
          dcg_cache_ordered_def om_assign_ordered consume_def release_def)
  qed
qed

lemma dcg_load_consistent:
  "dcg_tracker_consistent (snd (load_delta_column_group meta tsid version um))
     = dcg_tracker_consistent um"
  by (simp add: load_delta_column_group_def dcg_tracker_consistent_def)

lemma clear_cached_delta_column_group_consistent:
  "dcg_tracker_consistent um \<Longrightarrow> dcg_tracker_consistent (clear_cached_delta_column_group tsids um)"
proof (induction tsids arbitrary: um)
  case Nil
  then show ?case by simp
next
  case (Cons tsid tsids)
  from Cons.prems have ordered: "sorted_wrt tsid_less (map fst (delta_column_group_cache um))"
    and tracked: "delta_column_group_cache_mem_tracker um
                    = dcg_cache_memory_usage (delta_column_group_cache um)"
    by (simp_all add: dcg_tracker_consistent_def dcg_cache_ordered_def)
  show ?case
  proof (cases "map_of (delta_column_group_cache um) tsid")
    case None
    with Cons show ?thesis by simp
  next
    case (Some cached)
    from usage_om_erase [OF ordered Some]
    have "dcg_cache_memory_usage (delta_column_group_cache um)
            - delta_column_group_list_memory_usage cached
          = dcg_cache_memory_usage (om_erase tsid (delta_column_group_cache um))"
      by linarith
    with ordered tracked
    have "dcg_tracker_consistent
            (um\<lparr>delta_column_group_cache_mem_tracker :=
                  release (delta_column_group_list_memory_usage cached)
                    (delta_column_group_cache_mem_tracker um),
                delta_column_group_cache := om_erase tsid (delta_column_group_cache um)\<rparr>)"
      by (simp add: dcg_tracker_consistent_def dcg_cache_ordered_def om_erase_ordered release_def)
    from Cons.IH [OF this] Some show ?thesis by simp
  qed
qed

lemma dcg_tracker_consistent_preserved:
  assumes "dcg_tracker_consistent um"
  shows "dcg_tracker_consistent (snd (snd (get_delta_column_group meta tsid version dcgs um)))
       \<and> dcg_tracker_consistent (snd (snd (get_cached_delta_column_group tsid version dcgs um)))
       \<and> dcg_tracker_consistent (snd (set_cached_empty_delta_column_group meta tsid um))
       \<and> dcg_tracker_consistent (snd (set_cached_delta_column_group meta tsid dcg um))
       \<and> dcg_tracker_consistent (clear_cached_delta_column_group tsids um)
       \<and> dcg_tracker_consistent (clear_cached_delta_column_group_by_tablet_id tablet um)"
proof -
  from assms have ordered: "sorted_wrt tsid_less (map fst (delta_column_group_cache um))"
    and tracked: "delta_column_group_cache_mem_tracker um
                    = dcg_cache_memory_usage (delta_column_group_cache um)"
    by (simp_all add: dcg_tracker_consistent_def dcg_cache_ordered_def)
  have loaded: "dcg_tracker_consistent (snd (load_delta_column_group meta tsid INT64_MAX um))"
    using assms by (simp add: dcg_load_consistent)
  have get: "dcg_tracker_consistent (snd (snd (get_delta_column_group meta tsid version dcgs um)))"
    using assms loaded dcg_fill_consistent(1) [OF loaded]
    by (auto simp: get_delta_column_group_def split: option.splits prod.splits)
  have get_cached: "dcg_tracker_consistent (snd (snd (get_cached_delta_column_group tsid version dcgs um)))"
    using assms by (simp add: get_cached_delta_column_group_def split: option.splits)
  have set_empty: "dcg_tracker_consistent (snd (set_cached_empty_delta_column_group meta tsid um))"
    using assms loaded dcg_fill_consistent(2) [OF loaded]
    by (auto simp: set_cached_empty_delta_column_group_def split: option.splits prod.splits)
  have set_dcg: "dcg_tracker_consistent (snd (set_cached_delta_column_group meta tsid dcg um))"
  proof (cases "map_of (delta_column_group_cache um) tsid")
    case None
    with assms loaded dcg_fill_consistent(3) [OF loaded] show ?thesis
      by (auto simp: set_cached_delta_column_group_def split: prod.splits)
  next
    case (Some cached)
    from usage_om_assign_old [OF ordered Some, of "dcg # cached"]
    have "dcg_cache_memory_usage (om_assign tsid (dcg # cached) (delta_column_group_cache um))
            = dcg_cache_memory_usage (delta_column_group_cache um) + dcg_memory_usage dcg"
      by (simp add: delta_column_group_list_memory_usage_def)
    with Some ordered tracked show ?thesis
      by (simp add: set_cached_delta_column_group_def dcg_tracker_consistent_def
          dcg_cache_ordered_def om_assign_ordered consume_def)
  qed
  have by_tablet: "dcg_tracker_consistent (clear_cached_delta_column_group_by_tablet_id tablet um)"
    using ordered tracked erase_tablet_nodes_tracker [of tablet "delta_column_group_cache um" 0]
      erase_tablet_nodes_kept [of tablet "delta_column_group_cache um"
        "delta_column_group_cache_mem_tracker um"]
    by (simp add: clear_cached_delta_column_group_by_tablet_id_def dcg_tracker_consistent_def
        dcg_cache_ordered_def sorted_wrt_filter sorted_wrt_map split_beta)
  from get get_cached set_empty set_dcg by_tablet
    clear_cached_delta_column_group_consistent [OF assms, of tsids]
  show ?thesis by simp
qed

text \<open>
  \<open>clear_delta_column_group_before_version\<close> never touches the tracker of the
  delta-column-group cache, whatever the sweep removes from the cached lists.
\<close>

lemma clear_delta_column_group_before_version_tracker_untouched:
  "delta_column_group_cache_mem_tracker
     (snd (clear_delta_column_group_before_version meta fs now tablet_path tablet
             min_readable_version um))
     = delta_column_group_cache_mem_tracker um"
  by (simp add: clear_delta_column_group_before_version_def gc_under_lock_def Let_def
      case_prod_unfold)

text \<open>
  Claim C9 fails on \<open>clear_delta_column_group_before_version\<close>. The tracker of the
  delta-column-group cache is consistent before the call: it reads 460, the memory usage
  of the cached lists. Segment 3 of tablet 7 holds the deltas of versions 5, 2 and 1; with
  the minimum readable version 3 a read needs the delta of version 2 at most, and the call
  removes the delta of version 1 from the cached list and releases nothing. Afterwards the
  tracker still reads 460 while the cached lists use 360, and the tracker is no longer
  consistent.
\<close>

theorem clear_delta_column_group_before_version_leaks_tracker:
  "dcg_tracker_consistent um_dcg_history
   \<and> delta_column_group_cache_mem_tracker um_dcg_history = 460
   \<and> fst (clear_delta_column_group_before_version example_store example_fs steady_clock
             ''/data/7'' 7 3 um_dcg_history) = Inr 1
   \<and> delta_column_group_cache
        (snd (clear_delta_column_group_before_version example_store example_fs steady_clock
                ''/data/7'' 7 3 um_dcg_history))
       = [(TabletSegmentId 6 9, [dcg_v1]), (TabletSegmentId 7 3, [dcg_v5, dcg_v2]),
          (TabletSegmentId 7 4, [dcg_v2]), (TabletSegmentId 8 0, [dcg_v1])]
   \<and> delta_column_group_cache_mem_tracker
        (snd (clear_delta_column_group_before_version example_store example_fs steady_clock
                ''/data/7'' 7 3 um_dcg_history)) = 460
   \<and> dcg_cache_memory_usage (delta_column_group_cache
        (snd (clear_delta_column_group_before_version example_store example_fs steady_clock
                ''/data/7'' 7 3 um_dcg_history))) = 360
   \<and> \<not> dcg_tracker_consistent
        (snd (clear_delta_column_group_before_version example_store example_fs steady_clock
                ''/data/7'' 7 3 um_dcg_history))"
  by (simp add: clear_delta_column_group_before_version_def gc_under_lock_def um_dcg_history_def
      um_dcg_def um_cold_def
      tsid_less_def steady_clock_def garbage_collection_def dcg_v1_def dcg_v2_def dcg_v5_def
      example_store_def example_fs_def ok_def Status_OK_def dcg_cache_memory_usage_def
      delta_column_group_list_memory_usage_def dcg_tracker_consistent_def dcg_cache_ordered_def
      Let_def)

end
